theory Spec2Isabelle
  imports Main "HOL-Library.Char_ord" "HOL-Library.List_Lexorder"
begin

section \<open>Go values\<close>

text \<open>
  A Go \<open>[]byte\<close> and a Go \<open>string\<close> are byte sequences. A Go \<open>error\<close> is a value:
  \<open>Errorf\<close> carries a message, \<open>Wrap p e\<close> is \<open>fmt.Errorf(p + "%w", e)\<close>, and \<open>Panic\<close> records a
  run-time panic as a value, so that a panicking path is a branch of the model.
\<close>

type_synonym bytes = string

datatype error = Errorf string | Wrap string error | Panic string

text \<open>Go's \<open>int\<close> and \<open>int64\<close> are 64 bits wide; \<open>wrap64\<close> is the wrap-around of their
  arithmetic, written out where a result can leave the range.\<close>

definition wrap64 :: "int \<Rightarrow> int" where
  "wrap64 x = (x + 2 ^ 63) mod 2 ^ 64 - 2 ^ 63"

text \<open>\<open>fmt.Sprintf("%d", n)\<close>: the decimal digits of \<open>n\<close>, with a minus sign when negative.\<close>

fun decimal :: "nat \<Rightarrow> string" where
  "decimal n = (if n < 10 then [char_of (48 + n)] else decimal (n div 10) @ [char_of (48 + n mod 10)])"

definition Sprintf_d :: "int \<Rightarrow> string" where
  "Sprintf_d n = (if n < 0 then CHR ''-'' # decimal (nat (- n)) else decimal (nat n))"

subsection \<open>float32\<close>

text \<open>
  \<open>Finite m e\<close> is the float32 whose value is \<open>m * 2 ^ e\<close>; a float32 has 24 significant
  bits, exponents from \<open>-149\<close>, and magnitude below \<open>2 ^ 128\<close>. \<open>f32_round m e\<close> is the float32
  nearest the exact value \<open>m * 2 ^ e\<close> (ties to the even significand, infinity on overflow),
  which is how a float32 product is rounded.
\<close>

datatype float32 = Finite int int | PosInf | NegInf | NaN

fun bitlen :: "nat \<Rightarrow> nat" where
  "bitlen n = (if n = 0 then 0 else Suc (bitlen (n div 2)))"

definition rne_shift :: "nat \<Rightarrow> nat \<Rightarrow> nat" where
  "rne_shift a k =
     (if k = 0 then a
      else (let q = a div 2 ^ k; r = a mod 2 ^ k; h = 2 ^ (k - 1)
            in if h < r \<or> (r = h \<and> odd q) then q + 1 else q))"

definition f32_round :: "int \<Rightarrow> int \<Rightarrow> float32" where
  "f32_round m e =
     (let a = nat \<bar>m\<bar>;
          k = max (bitlen a - 24) (nat (- 149 - e));
          q = rne_shift a k;
          e' = e + int k
      in if 128 < int (bitlen q) + e' then (if m < 0 then NegInf else PosInf)
         else Finite (sgn m * int q) e')"

definition f32_is_zero :: "float32 \<Rightarrow> bool" where
  "f32_is_zero x = (case x of Finite m e \<Rightarrow> m = 0 | _ \<Rightarrow> False)"

definition f32_is_neg :: "float32 \<Rightarrow> bool" where
  "f32_is_neg x = (case x of Finite m e \<Rightarrow> m < 0 | NegInf \<Rightarrow> True | _ \<Rightarrow> False)"

fun f32_mul :: "float32 \<Rightarrow> float32 \<Rightarrow> float32" where
  "f32_mul (Finite m1 e1) (Finite m2 e2) = f32_round (m1 * m2) (e1 + e2)"
| "f32_mul x y =
     (if x = NaN \<or> y = NaN \<or> f32_is_zero x \<or> f32_is_zero y then NaN
      else if f32_is_neg x = f32_is_neg y then PosInf else NegInf)"

text \<open>
  \<open>f32_of_ratio n d\<close> is the float32 nearest the fraction \<open>n / d\<close> (\<open>d\<close> positive), ties to
  the even significand: what \<open>strconv.ParseFloat(s, 32)\<close>, and so the JSON decoder, makes of
  a decimal number. \<open>div_rne x y\<close> is \<open>x / y\<close> rounded that way.
\<close>

definition div_rne :: "nat \<Rightarrow> nat \<Rightarrow> nat" where
  "div_rne x y =
     (let q = x div y; r = x mod y
      in if y < 2 * r \<or> (2 * r = y \<and> odd q) then q + 1 else q)"

definition f32_of_ratio :: "int \<Rightarrow> nat \<Rightarrow> float32" where
  "f32_of_ratio n d =
     (let a = nat \<bar>n\<bar>;
          e0 = int (bitlen a) - int (bitlen d) - 24;
          below = (if 0 \<le> e0 then a div (d * 2 ^ nat e0) else (a * 2 ^ nat (- e0)) div d);
          e = max (if below < 2 ^ 24 then e0 else e0 + 1) (- 149);
          q = (if 0 \<le> e then div_rne a (d * 2 ^ nat e) else div_rne (a * 2 ^ nat (- e)) d)
      in if 128 < int (bitlen q) + e then (if n < 0 then NegInf else PosInf)
         else Finite (sgn n * int q) e)"

text \<open>
  The conversion \<open>int(f)\<close> discards the fraction (truncation towards zero). When the value
  does not fit an \<open>int\<close> (or is not a number) Go leaves the result to the implementation:
  \<open>unrep\<close> is that implementation's choice.
\<close>

definition go_int :: "(float32 \<Rightarrow> int) \<Rightarrow> float32 \<Rightarrow> int" where
  "go_int unrep f =
     (case f of
        Finite m e \<Rightarrow>
          (let t = (if 0 \<le> e then m * 2 ^ nat e else sgn m * (\<bar>m\<bar> div 2 ^ nat (- e)))
           in if - (2 ^ 63) \<le> t \<and> t < 2 ^ 63 then t else unrep f)
      | _ \<Rightarrow> unrep f)"

section \<open>The canonical statistics model (package utils)\<close>

record ModemChannel =
  ChannelID :: int
  Channel :: int
  Frequency :: int
  Snr :: int
  Power :: int
  Prerserr :: int
  Postrserr :: int
  Modulation :: string
  Scheme :: string
  Noise :: int
  Attenuation :: int
  T1Timeout :: int
  T2Timeout :: int
  T3Timeout :: int
  T4Timeout :: int
  Locked :: bool
  SymbolRate :: int

record ModemConfig =
  Config :: string
  Maxrate :: int
  Maxburst :: int
  ServiceFlowId :: int

record ModemStats =
  Configs :: "ModemConfig list"
  UpChannels :: "ModemChannel list"
  DownChannels :: "ModemChannel list"
  FetchTime :: int
  ModemType :: string

record EventLogEntry =
  Priority :: string
  Timestamp :: string
  Message :: string

section \<open>The raw document of the modem (package superhub5)\<close>

record dsChannel =
  ID :: int
  Frequency :: int
  Power :: float32
  Modulation :: string
  SNR :: int
  PreRS :: int
  PostRS :: int
  ChannelType :: string
  RxMer :: int
  LockStatus :: bool

record usChannel =
  ID :: int
  Frequency :: int
  Power :: float32
  Modulation :: string
  ChannelType :: string
  LockStatus :: bool
  SymbolRate :: int
  T1Timeout :: int
  T2Timeout :: int
  T3Timeout :: int
  T4Timeout :: int

text \<open>The anonymous inner struct of \<open>serviceFlow\<close> and the two inner structs of
  \<open>resultsStruct\<close> are flattened into their parents.\<close>

record serviceFlow =
  ID :: int
  Direction :: string
  MaxRate :: int
  MaxBurst :: int

record eventLogEntry =
  Priority :: string
  Time :: string
  Message :: string

record eventLogResponse =
  EventLog :: "eventLogEntry list"

record resultsStruct =
  Downstream_Channels :: "dsChannel list"
  Upstream_Channels :: "usChannel list"
  ServiceFlows :: "serviceFlow list"

section \<open>HTTP results (package utils)\<close>

text \<open>
  Of an \<open>http.Response\<close> the code reads the status code and the body; \<open>Body\<close> is what
  \<open>io.ReadAll\<close> returns on it. \<open>Response_zero\<close> is the zero \<open>http.Response\<close> of a result
  built without a response: its body is nil, and reading it panics.
\<close>

record Response =
  StatusCode :: int
  Body :: "error + bytes"

definition Response_zero :: Response where
  "Response_zero = \<lparr>StatusCode = 0, Body = Inl (Panic ''nil pointer dereference'')\<rparr>"

record HttpResult =
  Index :: nat
  Res :: Response
  Err :: "error option"

section \<open>Libraries the code calls\<close>

text \<open>
  The JSON decoder (\<open>encoding/json\<close>), the merge-patch library (\<open>evanphx/json-patch\<close>) and
  the float conversion of the platform are not code of this repository: they are parameters.
  \<open>MergeMergePatches\<close> returns both of its Go results, since the caller stores the first
  whether or not the second is nil.
\<close>

record library =
  MergeMergePatches :: "bytes \<Rightarrow> bytes \<Rightarrow> bytes option \<times> error option"
  Unmarshal_results :: "bytes \<Rightarrow> error + resultsStruct"
  Unmarshal_eventlog :: "bytes \<Rightarrow> error + eventLogResponse"
  int_unrepresentable :: "float32 \<Rightarrow> int"

section \<open>The modem: cache, addresses, accumulation\<close>

record Modem =
  IPAddress :: string
  Stats :: "bytes option"
  FetchTime :: int


definition apiAddress :: "Modem \<Rightarrow> string \<times> Modem" where
  "apiAddress sh5 =
     (let sh5' = (if IPAddress sh5 = [] then sh5\<lparr>IPAddress := ''192.168.100.1''\<rparr> else sh5)
      in (''https://'' @ IPAddress sh5' @ ''/rest/v1/cablemodem'', sh5'))"

text \<open>A nil \<open>[]byte\<close> handed to a library is the empty byte sequence.\<close>

definition bytes_of :: "bytes option \<Rightarrow> bytes" where
  "bytes_of b = (case b of None \<Rightarrow> [] | Some s \<Rightarrow> s)"

text \<open>
  The loop of \<open>ParseStats\<close> over \<open>statsData\<close>: it returns at the first result with an
  error, at the first body that cannot be read and at the first merge that fails; the
  modem is returned as the loop leaves it.
\<close>

fun accumulate :: "library \<Rightarrow> HttpResult list \<Rightarrow> Modem \<Rightarrow> error option \<times> Modem" where
  "accumulate lib [] sh5 = (None, sh5)"
| "accumulate lib (query # rest) sh5 =
     (case Err query of
        Some e \<Rightarrow> (Some e, sh5)
      | None \<Rightarrow>
          (case Body (Res query) of
             Inl e \<Rightarrow> (Some e, sh5)
           | Inr stats \<Rightarrow>
               (let (merged, err) = MergeMergePatches lib (bytes_of (Stats sh5)) stats;
                    sh5' = sh5\<lparr>Stats := merged\<rparr>
                in case err of
                     Some e \<Rightarrow> (Some e, sh5')
                   | None \<Rightarrow> accumulate lib rest sh5')))"

section \<open>Normalisation\<close>

text \<open>\<open>modulationRegex.FindString\<close> for the pattern \<open>[0-9]+\<close>: the leftmost run of digits,
  as long as it goes, or the empty string.\<close>

definition is_digit :: "char \<Rightarrow> bool" where
  "is_digit c = (c \<in> set ''0123456789'')"

definition FindString :: "string \<Rightarrow> string" where
  "FindString s = takeWhile is_digit (dropWhile (\<lambda>c. \<not> is_digit c) s)"

definition f32_ten :: float32 where
  "f32_ten = Finite 10 0"

text \<open>The zero \<open>utils.ModemChannel\<close>, which a composite literal starts from.\<close>

definition ModemChannel_zero :: ModemChannel where
  "ModemChannel_zero =
     \<lparr>ChannelID = 0, Channel = 0, Frequency = 0, Snr = 0, Power = 0, Prerserr = 0,
      Postrserr = 0, Modulation = [], Scheme = [], Noise = 0, Attenuation = 0,
      T1Timeout = 0, T2Timeout = 0, T3Timeout = 0, T4Timeout = 0, Locked = False,
      SymbolRate = 0\<rparr>"

text \<open>
  The body of the downstream loop, \<open>for index, downstream := range
  results.Downstream.Channels\<close>: the channel it appends, or \<open>None\<close> where it takes
  \<open>continue\<close> (the line printed for an unknown channel type is not modelled).
\<close>

definition downstream_body :: "library \<Rightarrow> nat \<Rightarrow> dsChannel \<Rightarrow> ModemChannel option" where
  "downstream_body lib index downstream =
     (let qamSize = FindString (dsChannel.Modulation downstream);
          powerInt = go_int (int_unrepresentable lib) (f32_mul (dsChannel.Power downstream) f32_ten);
          snr = wrap64 (SNR downstream * 10);
          emit = (\<lambda>scheme powerInt snr.
            Some (ModemChannel_zero\<lparr>
                   ChannelID := dsChannel.ID downstream,
                   Channel := int index + 1,
                   ModemChannel.Frequency := dsChannel.Frequency downstream,
                   Snr := snr,
                   ModemChannel.Power := powerInt,
                   Prerserr := wrap64 (PreRS downstream + PostRS downstream),
                   Postrserr := PostRS downstream,
                   ModemChannel.Modulation := ''QAM'' @ qamSize,
                   Scheme := scheme,
                   Locked := dsChannel.LockStatus downstream\<rparr>))
      in if dsChannel.ChannelType downstream = ''sc_qam'' then emit ''SC-QAM'' powerInt snr
         else if dsChannel.ChannelType downstream = ''ofdm'' then
           emit ''OFDM'' (go_int (int_unrepresentable lib) (dsChannel.Power downstream))
             (RxMer downstream)
         else None)"

text \<open>The loop itself: \<open>index\<close> counts every entry of the raw list, appended or not.\<close>

fun downstream_loop ::
  "library \<Rightarrow> nat \<Rightarrow> dsChannel list \<Rightarrow> ModemChannel list \<Rightarrow> ModemChannel list" where
  "downstream_loop lib index [] downChannels = downChannels"
| "downstream_loop lib index (downstream # rest) downChannels =
     (case downstream_body lib index downstream of
        None \<Rightarrow> downstream_loop lib (index + 1) rest downChannels
      | Some c \<Rightarrow> downstream_loop lib (index + 1) rest (downChannels @ [c]))"

definition upstream_body :: "library \<Rightarrow> nat \<Rightarrow> usChannel \<Rightarrow> ModemChannel option" where
  "upstream_body lib index upstream =
     (let powerInt = go_int (int_unrepresentable lib) (f32_mul (usChannel.Power upstream) f32_ten);
          emit = (\<lambda>scheme powerInt.
            Some (ModemChannel_zero\<lparr>
                   ChannelID := usChannel.ID upstream,
                   Channel := int index + 1,
                   ModemChannel.Frequency := usChannel.Frequency upstream,
                   ModemChannel.Power := powerInt,
                   Scheme := scheme,
                   Locked := usChannel.LockStatus upstream,
                   ModemChannel.SymbolRate := usChannel.SymbolRate upstream,
                   ModemChannel.T1Timeout := usChannel.T1Timeout upstream,
                   ModemChannel.T2Timeout := usChannel.T2Timeout upstream,
                   ModemChannel.T3Timeout := usChannel.T3Timeout upstream,
                   ModemChannel.T4Timeout := usChannel.T4Timeout upstream\<rparr>))
      in if usChannel.ChannelType upstream = ''atdma'' then emit ''ATDMA'' powerInt
         else if usChannel.ChannelType upstream = ''ofdma'' then
           emit ''OFDMA'' (go_int (int_unrepresentable lib) (usChannel.Power upstream))
         else None)"

fun upstream_loop ::
  "library \<Rightarrow> nat \<Rightarrow> usChannel list \<Rightarrow> ModemChannel list \<Rightarrow> ModemChannel list" where
  "upstream_loop lib index [] upChannels = upChannels"
| "upstream_loop lib index (upstream # rest) upChannels =
     (case upstream_body lib index upstream of
        None \<Rightarrow> upstream_loop lib (index + 1) rest upChannels
      | Some c \<Rightarrow> upstream_loop lib (index + 1) rest (upChannels @ [c]))"

definition config_of :: "serviceFlow \<Rightarrow> ModemConfig" where
  "config_of modemConfig =
     \<lparr>Config = Direction modemConfig, Maxrate = MaxRate modemConfig,
      Maxburst = MaxBurst modemConfig, ServiceFlowId = serviceFlow.ID modemConfig\<rparr>"

text \<open>The channel types the two loops know.\<close>

definition ds_recognized :: "dsChannel \<Rightarrow> bool" where
  "ds_recognized d = (dsChannel.ChannelType d = ''sc_qam'' \<or> dsChannel.ChannelType d = ''ofdm'')"

definition us_recognized :: "usChannel \<Rightarrow> bool" where
  "us_recognized u = (usChannel.ChannelType u = ''atdma'' \<or> usChannel.ChannelType u = ''ofdma'')"

text \<open>The second half of \<open>ParseStats\<close>, from \<open>json.Unmarshal\<close> to the return.\<close>

definition normalise :: "library \<Rightarrow> Modem \<Rightarrow> error + ModemStats" where
  "normalise lib sh5 =
     (case Unmarshal_results lib (bytes_of (Stats sh5)) of
        Inl err \<Rightarrow> Inl (Wrap ''failed to parse stats JSON: '' err)
      | Inr results \<Rightarrow>
          Inr \<lparr>Configs = map config_of (ServiceFlows results),
               UpChannels = upstream_loop lib 0 (Upstream_Channels results) [],
               DownChannels = downstream_loop lib 0 (Downstream_Channels results) [],
               FetchTime = Modem.FetchTime sh5,
               ModemType = []\<rparr>)"

text \<open>
  \<open>ParseStats\<close>. \<open>fetch\<close> is the call of \<open>utils.BoundedParallelGet\<close> in this run, and
  \<open>timeStart\<close>, \<open>timeEnd\<close> the two readings of the clock. The result is the pair the Go
  method returns, the modem as the call leaves it, and the addresses handed to the fetcher
  (none when the cached document is used).
\<close>

definition ParseStats ::
  "library \<Rightarrow> (string list \<Rightarrow> nat \<Rightarrow> HttpResult list) \<Rightarrow> int \<Rightarrow> int \<Rightarrow> Modem
     \<Rightarrow> (error + ModemStats) \<times> Modem \<times> string list" where
  "ParseStats lib fetch timeStart timeEnd sh5 =
     (if Stats sh5 = None then
        (let sh5a = sh5\<lparr>Stats := Some ''{}''\<rparr>;
             (a1, sh5b) = apiAddress sh5a;
             (a2, sh5c) = apiAddress sh5b;
             (a3, sh5d) = apiAddress sh5c;
             queries = [a1 @ ''/downstream'', a2 @ ''/upstream'', a3 @ ''/serviceflows''];
             statsData = fetch queries 3;
             sh5e = sh5d\<lparr>Modem.FetchTime := wrap64 (timeEnd - timeStart)\<rparr>;
             (err, sh5f) = accumulate lib statsData sh5e
         in case err of
              Some e \<Rightarrow> (Inl e, sh5f, queries)
            | None \<Rightarrow> (normalise lib sh5f, sh5f, queries))
      else (normalise lib sh5, sh5, []))"

text \<open>\<open>FetchEventLog\<close>; \<open>get\<close> is \<open>utils.InsecureHTTPClient().Get\<close>, which returns a response, an
  error, or (when a redirect fails) both.\<close>

definition entry_of :: "eventLogEntry \<Rightarrow> EventLogEntry" where
  "entry_of e =
     \<lparr>EventLogEntry.Priority = eventLogEntry.Priority e, Timestamp = Time e,
      EventLogEntry.Message = eventLogEntry.Message e\<rparr>"

definition FetchEventLog ::
  "library \<Rightarrow> (string \<Rightarrow> Response option \<times> error option) \<Rightarrow> Modem
     \<Rightarrow> (error + EventLogEntry list) \<times> Modem" where
  "FetchEventLog lib get sh5 =
     (let (addr, sh5') = apiAddress sh5;
          url = addr @ ''/eventlog'';
          (res, err) = get url
      in (case err of
            Some e \<Rightarrow> Inl (Wrap ''failed to fetch eventlog: '' e)
          | None \<Rightarrow>
              (case res of
                 None \<Rightarrow> Inl (Panic ''nil pointer dereference'')
               | Some r \<Rightarrow>
                   (case Body r of
                      Inl e \<Rightarrow> Inl (Wrap ''failed to read eventlog response: '' e)
                    | Inr body \<Rightarrow>
                        (case Unmarshal_eventlog lib body of
                           Inl e \<Rightarrow> Inl (Wrap ''failed to parse eventlog JSON: '' e)
                         | Inr response \<Rightarrow> Inr (map entry_of (EventLog response))))),
          sh5'))"

section \<open>The bounded parallel fetcher (package utils)\<close>

text \<open>
  \<open>BoundedParallelGet\<close> starts one goroutine per address and then receives
  \<open>len(urls)\<close> results. Each goroutine goes through four places:
  \<^item> \<open>Waiting\<close>: before \<open>semaphoreChan <- struct{}{}\<close>;
  \<^item> \<open>Holding\<close>: a slot of the semaphore is taken, the request is under way;
  \<^item> \<open>Sent\<close>: the result is in \<open>resultsChan\<close>, the slot not yet given back;
  \<^item> \<open>Done\<close>: after \<open><-semaphoreChan\<close>.
  The state holds the place of every goroutine, the number of slots taken in
  \<open>semaphoreChan\<close>, the queue of \<open>resultsChan\<close> and the slice \<open>results\<close> of the caller.
\<close>

datatype place = Waiting | Holding | Sent | Done

record fetch_state =
  places :: "place list"
  semaphoreChan :: nat
  resultsChan :: "HttpResult list"
  results :: "HttpResult list"

text \<open>One step of one goroutine, or one receive of the caller.\<close>

datatype action = Acquire nat | Complete nat | Release nat | Receive

text \<open>The result a goroutine builds from what \<open>insecureHTTPClient.Get\<close> returned.\<close>

definition result_of :: "nat \<Rightarrow> Response option \<times> error option \<Rightarrow> HttpResult" where
  "result_of i out =
     (case fst out of
        Some res \<Rightarrow> \<lparr>Index = i, Res = res, Err = snd out\<rparr>
      | None \<Rightarrow> \<lparr>Index = i, Res = Response_zero, Err = snd out\<rparr>)"

definition fetch_init :: "string list \<Rightarrow> fetch_state" where
  "fetch_init urls =
     \<lparr>places = replicate (length urls) Waiting, semaphoreChan = 0, resultsChan = [],
      results = []\<rparr>"

text \<open>
  A step is enabled or not (\<open>None\<close>): a send on the full semaphore blocks, a receive on
  the empty \<open>resultsChan\<close> blocks, and the caller receives \<open>len(urls)\<close> times only. The send
  on \<open>resultsChan\<close>, whose capacity is \<open>len(urls)\<close>, never blocks. \<open>get i url\<close> is what the
  request of goroutine \<open>i\<close> returns.
\<close>

fun fetch_step ::
  "(nat \<Rightarrow> string \<Rightarrow> Response option \<times> error option) \<Rightarrow> string list \<Rightarrow> nat \<Rightarrow> action
     \<Rightarrow> fetch_state \<Rightarrow> fetch_state option" where
  "fetch_step get urls K (Acquire i) s =
     (if i < length (places s) \<and> places s ! i = Waiting \<and> semaphoreChan s < K
      then Some (s\<lparr>places := (places s)[i := Holding], semaphoreChan := semaphoreChan s + 1\<rparr>)
      else None)"
| "fetch_step get urls K (Complete i) s =
     (if i < length (places s) \<and> i < length urls \<and> places s ! i = Holding
      then Some (s\<lparr>places := (places s)[i := Sent],
                    resultsChan := resultsChan s @ [result_of i (get i (urls ! i))]\<rparr>)
      else None)"
| "fetch_step get urls K (Release i) s =
     (if i < length (places s) \<and> places s ! i = Sent
      then Some (s\<lparr>places := (places s)[i := Done], semaphoreChan := semaphoreChan s - 1\<rparr>)
      else None)"
| "fetch_step get urls K Receive s =
     (if length (results s) < length urls
      then (case resultsChan s of
              [] \<Rightarrow> None
            | result # queue \<Rightarrow> Some (s\<lparr>resultsChan := queue, results := results s @ [result]\<rparr>))
      else None)"

fun fetch_run ::
  "(nat \<Rightarrow> string \<Rightarrow> Response option \<times> error option) \<Rightarrow> string list \<Rightarrow> nat \<Rightarrow> action list
     \<Rightarrow> fetch_state \<Rightarrow> fetch_state option" where
  "fetch_run get urls K [] s = Some s"
| "fetch_run get urls K (a # sched) s =
     (case fetch_step get urls K a s of
        None \<Rightarrow> None
      | Some s' \<Rightarrow> fetch_run get urls K sched s')"

text \<open>The caller returns once it has received \<open>len(urls)\<close> results.\<close>

definition returned :: "string list \<Rightarrow> fetch_state \<Rightarrow> bool" where
  "returned urls s = (length (results s) = length urls)"

text \<open>
  \<open>BoundedParallelGet\<close> under the interleaving \<open>sched\<close>: the slice it returns, or \<open>None\<close>
  when \<open>sched\<close> is not an execution at whose end the caller returns.
\<close>

definition BoundedParallelGet ::
  "(nat \<Rightarrow> string \<Rightarrow> Response option \<times> error option) \<Rightarrow> action list \<Rightarrow> string list \<Rightarrow> nat
     \<Rightarrow> HttpResult list option" where
  "BoundedParallelGet get sched urls K =
     (case fetch_run get urls K sched (fetch_init urls) of
        None \<Rightarrow> None
      | Some s \<Rightarrow> if returned urls s then Some (results s) else None)"

text \<open>The requests in the order in which they completed under \<open>sched\<close>.\<close>

fun completions :: "action list \<Rightarrow> nat list" where
  "completions [] = []"
| "completions (Complete i # sched) = i # completions sched"
| "completions (a # sched) = completions sched"



definition holds_slot :: "place \<Rightarrow> nat" where
  "holds_slot p = (if p = Holding \<or> p = Sent then 1 else 0)"

definition completed :: "place \<Rightarrow> bool" where
  "completed p = (p = Sent \<or> p = Done)"

subsection \<open>The simple fetch\<close>

text \<open>
  \<open>SimpleHTTPFetch\<close>, the fetch of one address, which the other modems of the repository
  use; \<open>get\<close> is \<open>insecureHTTPClient.Get\<close>, \<open>timeStart\<close> and \<open>timeEnd\<close> the two readings
  of the clock. It returns the body and the fetch time, or the error.
\<close>

definition SimpleHTTPFetch ::
  "(string \<Rightarrow> Response option \<times> error option) \<Rightarrow> int \<Rightarrow> int \<Rightarrow> string \<Rightarrow> error + bytes \<times> int" where
  "SimpleHTTPFetch get timeStart timeEnd url =
     (let (resp, err) = get url
      in case err of
           Some e \<Rightarrow> Inl e
         | None \<Rightarrow>
             (case resp of
                None \<Rightarrow> Inl (Panic ''nil pointer dereference'')
              | Some r \<Rightarrow>
                  if StatusCode r \<noteq> 200
                  then Inl (Errorf (Sprintf_d (StatusCode r) @ '' status code recieved''))
                  else (case Body r of
                          Inl e \<Rightarrow> Inl e
                        | Inr stats \<Rightarrow> Inr (stats, wrap64 (timeEnd - timeStart)))))"

section \<open>The log shipper (package outputs)\<close>

record LokiExporter =
  endpoint :: string
  seenLogs :: "string \<rightharpoonup> bool"
  labels :: "string \<rightharpoonup> string"

record lokiStream =
  Stream :: "string \<rightharpoonup> string"
  Values :: "string list list"

record lokiPushRequest =
  Streams :: "lokiStream list"

text \<open>
  What one call of \<open>PushLogs\<close> meets outside the exporter: the outcome of
  \<open>logProvider.FetchEventLog()\<close>; \<open>time_Parse\<close>, the \<open>UnixNano\<close> of
  \<open>time.Parse(time.RFC3339, s)\<close> or \<open>None\<close> when the parse fails; \<open>time_Now i\<close>, the
  \<open>UnixNano\<close> of the clock when the loop is at the new entry at position \<open>i\<close>;
  \<open>json.Marshal\<close>; and the outcome of \<open>client.Post\<close>.
\<close>

record loki_world =
  logProvider :: "error + EventLogEntry list"
  time_Parse :: "string \<Rightarrow> int option"
  time_Now :: "nat \<Rightarrow> int"
  json_Marshal :: "lokiPushRequest \<Rightarrow> error + bytes"
  client_Post :: "string \<Rightarrow> bytes \<Rightarrow> Response option \<times> error option"

definition logKey :: "EventLogEntry \<Rightarrow> string" where
  "logKey entry =
     Timestamp entry @ ''|'' @ EventLogEntry.Priority entry @ ''|'' @ EventLogEntry.Message entry"

text \<open>\<open>l.seenLogs[key]\<close>: a missing key reads as \<open>false\<close>.\<close>

definition seen :: "(string \<rightharpoonup> bool) \<Rightarrow> string \<Rightarrow> bool" where
  "seen m key = (case m key of None \<Rightarrow> False | Some b \<Rightarrow> b)"

definition filter_new :: "(string \<rightharpoonup> bool) \<Rightarrow> EventLogEntry list \<Rightarrow> EventLogEntry list" where
  "filter_new m entries = filter (\<lambda>entry. \<not> seen m (logKey entry)) entries"

text \<open>
  The map \<open>streams\<close>, as the list of its keys with their values, a new key last. Go
  ranges over a map in no fixed order; the model ranges in this order, which is one of
  those Go may take. The general theorems say nothing of the order of the streams; the
  examples show a request with its streams in this order.
\<close>

fun streams_append ::
  "string \<Rightarrow> string list \<Rightarrow> (string \<times> string list list) list
     \<Rightarrow> (string \<times> string list list) list" where
  "streams_append p v [] = [(p, [v])]"
| "streams_append p v ((p', vs) # rest) =
     (if p' = p then (p', vs @ [v]) # rest else (p', vs) # streams_append p v rest)"

definition stamp :: "loki_world \<Rightarrow> nat \<Rightarrow> EventLogEntry \<Rightarrow> string list" where
  "stamp w i entry =
     (let ts = (case time_Parse w (Timestamp entry) of Some t \<Rightarrow> t | None \<Rightarrow> time_Now w i);
          tsNano = Sprintf_d ts
      in [tsNano, EventLogEntry.Message entry])"

fun group_loop ::
  "loki_world \<Rightarrow> nat \<Rightarrow> EventLogEntry list \<Rightarrow> (string \<times> string list list) list
     \<Rightarrow> (string \<times> string list list) list" where
  "group_loop w i [] streams = streams"
| "group_loop w i (entry # rest) streams =
     group_loop w (i + 1) rest
       (streams_append (EventLogEntry.Priority entry) (stamp w i entry) streams)"

text \<open>
  One stream of the request. \<open>sort.Slice\<close> with \<open>values[i][0] < values[j][0]\<close> compares
  the timestamp strings as Go compares strings, byte by byte; it promises no order among
  equal keys, and the model keeps theirs.
\<close>

definition build_stream :: "LokiExporter \<Rightarrow> string \<times> string list list \<Rightarrow> lokiStream" where
  "build_stream l pv =
     (case pv of (priority, values) \<Rightarrow>
        \<lparr>Stream = (labels l)(''level'' \<mapsto> priority),
         Values = sort_key (\<lambda>v. v ! 0) values\<rparr>)"

fun mark_seen :: "EventLogEntry list \<Rightarrow> (string \<rightharpoonup> bool) \<Rightarrow> (string \<rightharpoonup> bool)" where
  "mark_seen [] m = m"
| "mark_seen (entry # rest) m = mark_seen rest (m(logKey entry \<mapsto> True))"

definition build_request :: "loki_world \<Rightarrow> LokiExporter \<Rightarrow> EventLogEntry list \<Rightarrow> lokiPushRequest" where
  "build_request w l newEntries =
     \<lparr>Streams = map (build_stream l) (group_loop w 0 newEntries [])\<rparr>"

text \<open>
  \<open>PushLogs\<close>: the error it returns (\<open>None\<close> is \<open>nil\<close>), the exporter as the call leaves
  it, and the requests it handed to \<open>client.Post\<close>.
\<close>

definition PushLogs ::
  "loki_world \<Rightarrow> LokiExporter \<Rightarrow> error option \<times> LokiExporter \<times> lokiPushRequest list" where
  "PushLogs w l =
     (case logProvider w of
        Inl err \<Rightarrow> (Some (Wrap ''failed to fetch event log: '' err), l, [])
      | Inr entries \<Rightarrow>
          (let newEntries = filter_new (seenLogs l) entries
           in if length newEntries = 0 then (None, l, [])
              else
                (let req = build_request w l newEntries
                 in case json_Marshal w req of
                      Inl err \<Rightarrow> (Some (Wrap ''failed to marshal loki request: '' err), l, [])
                    | Inr body \<Rightarrow>
                        (let (resp, err) = client_Post w (endpoint l) body
                         in case err of
                              Some e \<Rightarrow> (Some (Wrap ''failed to push to loki: '' e), l, [req])
                            | None \<Rightarrow>
                                (case resp of
                                   None \<Rightarrow> (Some (Panic ''nil pointer dereference''), l, [req])
                                 | Some r \<Rightarrow>
                                     if StatusCode r < 200 \<or> 300 \<le> StatusCode r
                                     then (Some (Errorf (''loki returned status '' @ Sprintf_d (StatusCode r))),
                                           l, [req])
                                     else (None,
                                           l\<lparr>seenLogs := mark_seen newEntries (seenLogs l)\<rparr>,
                                           [req]))))))"

text \<open>
  What holds of every state an execution reaches: one place per address; the slots taken are
  those of the goroutines between their send and their receive on the semaphore, at most
  \<open>K\<close>; the results received and queued are those of the completed goroutines, each once,
  each what its request returned.
\<close>

definition fetch_inv ::
  "(nat \<Rightarrow> string \<Rightarrow> Response option \<times> error option) \<Rightarrow> string list \<Rightarrow> nat \<Rightarrow> fetch_state \<Rightarrow> bool" where
  "fetch_inv get urls K s \<longleftrightarrow>
     length (places s) = length urls
     \<and> semaphoreChan s = sum_list (map holds_slot (places s))
     \<and> semaphoreChan s \<le> K
     \<and> distinct (map Index (results s @ resultsChan s))
     \<and> set (map Index (results s @ resultsChan s)) = {i. i < length urls \<and> completed (places s ! i)}
     \<and> (\<forall>r\<in>set (results s @ resultsChan s). r = result_of (Index r) (get (Index r) (urls ! Index r)))"

text \<open>
  The slice the call \<open>utils.BoundedParallelGet(urls, K)\<close> returns when the requests answer
  as \<open>get\<close> says and the goroutines interleave as \<open>sched\<close> says (no result where \<open>sched\<close> is
  no execution of the call).
\<close>

definition fetcher ::
  "(nat \<Rightarrow> string \<Rightarrow> Response option \<times> error option) \<Rightarrow> action list \<Rightarrow> string list \<Rightarrow> nat
     \<Rightarrow> HttpResult list" where
  "fetcher get sched urls K =
     (case BoundedParallelGet get sched urls K of None \<Rightarrow> [] | Some rs \<Rightarrow> rs)"

section \<open>Examples\<close>

text \<open>
  A library given by tables: the merges and the decodings the examples need, each as the
  real library computes it; whatever is not in a table is answered with an error. The
  conversion of an unrepresentable float is the one of amd64.
\<close>

definition table_library ::
  "((bytes \<times> bytes) \<times> bytes) list \<Rightarrow> (bytes \<times> resultsStruct) list
     \<Rightarrow> (bytes \<times> eventLogResponse) list \<Rightarrow> library" where
  "table_library merges decodes logs =
     \<lparr>MergeMergePatches = (\<lambda>doc patch.
        case map_of merges (doc, patch) of
          Some merged \<Rightarrow> (Some merged, None)
        | None \<Rightarrow> (None, Some (Errorf ''not in the table''))),
      Unmarshal_results = (\<lambda>b.
        case map_of decodes b of
          Some r \<Rightarrow> Inr r
        | None \<Rightarrow> Inl (Errorf ''invalid character'')),
      Unmarshal_eventlog = (\<lambda>b.
        case map_of logs b of
          Some r \<Rightarrow> Inr r
        | None \<Rightarrow> Inl (Errorf ''invalid character'')),
      int_unrepresentable = (\<lambda>f. - (2 ^ 63))\<rparr>"

definition results_empty :: resultsStruct where
  "results_empty = \<lparr>Downstream_Channels = [], Upstream_Channels = [], ServiceFlows = []\<rparr>"

text \<open>The library on the empty object: \<open>{}\<close> merged into \<open>{}\<close> is \<open>{}\<close>, and \<open>{}\<close> decodes to
  a document with no channels and no service flows.\<close>

definition library_empty :: library where
  "library_empty = table_library [((''{}'', ''{}''), ''{}'')] [(''{}'', results_empty)] []"

text \<open>Requests that answer by position, and two outcomes of a request.\<close>

definition get_of ::
  "(Response option \<times> error option) list \<Rightarrow> nat \<Rightarrow> string \<Rightarrow> Response option \<times> error option" where
  "get_of outs i url = (if i < length outs then outs ! i else (None, Some (Errorf ''no such host'')))"

definition answered :: "int \<Rightarrow> bytes \<Rightarrow> Response option \<times> error option" where
  "answered code body = (Some \<lparr>StatusCode = code, Body = Inr body\<rparr>, None)"

definition failed :: "string \<Rightarrow> Response option \<times> error option" where
  "failed msg = (None, Some (Errorf msg))"

text \<open>Two interleavings of three goroutines: one after the other, and with the last
  request completing first.\<close>

definition sched_in_order :: "action list" where
  "sched_in_order =
     [Acquire 0, Complete 0, Release 0, Acquire 1, Complete 1, Release 1,
      Acquire 2, Complete 2, Release 2, Receive, Receive, Receive]"

definition sched_last_first :: "action list" where
  "sched_last_first =
     [Acquire 0, Acquire 1, Acquire 2, Complete 2, Complete 1, Complete 0,
      Receive, Receive, Receive, Release 0, Release 1, Release 2]"

text \<open>The three addresses of a modem at the default address, and requests of which the
  first and the last fail.\<close>

definition queries_default :: "string list" where
  "queries_default =
     [''https://192.168.100.1/rest/v1/cablemodem/downstream'',
      ''https://192.168.100.1/rest/v1/cablemodem/upstream'',
      ''https://192.168.100.1/rest/v1/cablemodem/serviceflows'']"

definition get_mixed :: "nat \<Rightarrow> string \<Rightarrow> Response option \<times> error option" where
  "get_mixed = get_of [failed ''timeout'', answered 200 ''{}'', failed ''connection refused'']"

definition modem_fresh :: Modem where
  "modem_fresh = \<lparr>IPAddress = [], Stats = None, FetchTime = 0\<rparr>"

definition modem_cached :: Modem where
  "modem_cached = \<lparr>IPAddress = ''192.168.100.1'', Stats = Some ''{}'', FetchTime = 150\<rparr>"

text \<open>
  A document with two downstream entries, the first of an unknown channel type, the second
  the first SC-QAM channel of the repository's test data; what the decoder makes of it; and
  the snapshot \<open>ParseStats\<close> returns for it.
\<close>

definition dsChannel_zero :: dsChannel where
  "dsChannel_zero =
     \<lparr>dsChannel.ID = 0, dsChannel.Frequency = 0, dsChannel.Power = Finite 0 0,
      dsChannel.Modulation = [], SNR = 0, PreRS = 0, PostRS = 0, dsChannel.ChannelType = [],
      RxMer = 0, dsChannel.LockStatus = False\<rparr>"

definition doc_gap :: bytes where
  \<open>doc_gap = ''{"downstream":{"channels":[{"channelId":5,"channelType":"docsis4"},{"channelId":37,"frequency":419000000,"power":2.1,"modulation":"qam_256","snr":41,"correctedErrors":246832,"uncorrectedErrors":11087,"channelType":"sc_qam","rxMer":0,"lockStatus":true}]}}''\<close>

definition results_gap :: resultsStruct where
  "results_gap =
     \<lparr>Downstream_Channels =
        [dsChannel_zero\<lparr>dsChannel.ID := 5, dsChannel.ChannelType := ''docsis4''\<rparr>,
         \<lparr>dsChannel.ID = 37, dsChannel.Frequency = 419000000,
          dsChannel.Power = f32_of_ratio 21 10, dsChannel.Modulation = ''qam_256'', SNR = 41,
          PreRS = 246832, PostRS = 11087, dsChannel.ChannelType = ''sc_qam'', RxMer = 0,
          dsChannel.LockStatus = True\<rparr>],
      Upstream_Channels = [], ServiceFlows = []\<rparr>"

definition library_gap :: library where
  "library_gap = table_library [] [(doc_gap, results_gap)] []"

definition modem_gap :: Modem where
  "modem_gap = \<lparr>IPAddress = ''192.168.100.1'', Stats = Some doc_gap, FetchTime = 100\<rparr>"

definition stats_gap :: ModemStats where
  "stats_gap =
     \<lparr>Configs = [], UpChannels = [],
      DownChannels =
        [ModemChannel_zero\<lparr>ChannelID := 37, Channel := 2,
           ModemChannel.Frequency := 419000000, Snr := 410, ModemChannel.Power := 21,
           Prerserr := 257919, Postrserr := 11087, ModemChannel.Modulation := ''QAM256'',
           Scheme := ''SC-QAM'', Locked := True\<rparr>],
      FetchTime = 100, ModemType = []\<rparr>"




definition modem_started :: Modem where
  "modem_started = \<lparr>IPAddress = ''192.168.100.1'', Stats = Some ''{}'', FetchTime = 7\<rparr>"

text \<open>Requests of which the first is answered with status 503 and a body that is a JSON
  object; and a decoder that knows the empty object as an event log with no entries.\<close>

definition get_unavailable :: "nat \<Rightarrow> string \<Rightarrow> Response option \<times> error option" where
  "get_unavailable = get_of [answered 503 ''{}'', answered 200 ''{}'', answered 200 ''{}'']"

definition library_eventlog :: library where
  "library_eventlog = table_library [] [] [(''{}'', \<lparr>EventLog = []\<rparr>)]"

text \<open>
  Three entries of an event log, two of them from before the modem had the time of day,
  one with a time that is no RFC 3339 time; \<open>time.Parse\<close> on their times; a call of
  \<open>PushLogs\<close> in which the provider returns \<open>entries\<close>, the clock reads
  1700000000000000000 ns and one more at each entry, \<open>json.Marshal\<close> succeeds (its bytes
  stand for the encoded request: the exporter hands them on unread) and the sink answers
  with \<open>outcome\<close>; and the exporter \<open>NewLokiExporter\<close> returns for nil labels.
\<close>

definition entry_late :: EventLogEntry where
  "entry_late =
     \<lparr>EventLogEntry.Priority = ''error'', Timestamp = ''1970-01-01T00:01:40Z'',
      EventLogEntry.Message = ''No Ranging Response received''\<rparr>"

definition entry_early :: EventLogEntry where
  "entry_early =
     \<lparr>EventLogEntry.Priority = ''error'', Timestamp = ''1970-01-01T00:00:20Z'',
      EventLogEntry.Message = ''SYNC Timing Synchronization failure''\<rparr>"

definition entry_undated :: EventLogEntry where
  "entry_undated =
     \<lparr>EventLogEntry.Priority = ''notice'', Timestamp = ''Time Not Established'',
      EventLogEntry.Message = ''Cable Modem Reboot''\<rparr>"

definition time_table :: "string \<Rightarrow> int option" where
  "time_table =
     map_of [(''1970-01-01T00:00:20Z'', 20000000000), (''1970-01-01T00:01:40Z'', 100000000000)]"

definition world_of :: "EventLogEntry list \<Rightarrow> Response option \<times> error option \<Rightarrow> loki_world" where
  "world_of entries outcome =
     \<lparr>logProvider = Inr entries, time_Parse = time_table,
      time_Now = (\<lambda>i. 1700000000000000000 + int i),
      json_Marshal = (\<lambda>req. Inr ''streams''),
      client_Post = (\<lambda>url body. outcome)\<rparr>"

definition exporter_new :: LokiExporter where
  "exporter_new =
     \<lparr>endpoint = ''http://loki:3100/loki/api/v1/push'', seenLogs = Map.empty,
      labels = [''job'' \<mapsto> ''modem-stats'']\<rparr>"

text \<open>The exporter once the entry with no time has been shipped.\<close>

definition exporter_seen :: LokiExporter where
  "exporter_seen =
     exporter_new\<lparr>seenLogs := [''Time Not Established|notice|Cable Modem Reboot'' \<mapsto> True]\<rparr>"

section \<open>The cached document\<close>

lemma ParseStats_cached_eq:
  "Stats sh5 \<noteq> None \<Longrightarrow> ParseStats lib fetch t0 t1 sh5 = (normalise lib sh5, sh5, [])"
  by (cases "Stats sh5") (simp_all add: ParseStats_def)

lemma ParseStats_success:
  "ParseStats lib fetch t0 t1 sh5 = (Inr stats, sh5', reqs) \<Longrightarrow> normalise lib sh5' = Inr stats"
  by (auto simp: ParseStats_def Let_def split: if_splits prod.splits option.splits)

text \<open>
  C10. When the cached raw document is present, \<open>ParseStats\<close> hands no address to the
  fetcher and leaves the modem, so its \<open>Stats\<close> and \<open>FetchTime\<close>, as they are; a further
  call, whatever the network and the clock do meanwhile, returns the same result from the
  same cached bytes.
\<close>

theorem ParseStats_cached:
  assumes "Stats sh5 \<noteq> None"
    and "ParseStats lib fetch timeStart timeEnd sh5 = (r, sh5', reqs)"
  shows "reqs = [] \<and> sh5' = sh5 \<and> Stats sh5' = Stats sh5
    \<and> Modem.FetchTime sh5' = Modem.FetchTime sh5
    \<and> ParseStats lib fetch' timeStart' timeEnd' sh5' = (r, sh5', [])"
  using assms by (cases "Stats sh5") (auto simp: ParseStats_def)

theorem ParseStats_cached_witness:
  "Stats modem_cached \<noteq> None
   \<and> snd (ParseStats library_empty (fetcher (get_of []) sched_in_order) 0 7 modem_cached)
       = (modem_cached, [])
   \<and> ParseStats library_empty (fetcher (get_of []) sched_last_first) 20 29 modem_cached
       = ParseStats library_empty (fetcher (get_of []) sched_in_order) 0 7 modem_cached"
proof -
  have h1: "Stats modem_cached \<noteq> None"
    by (simp add: modem_cached_def)
  obtain r m q where
    h2: "ParseStats library_empty (fetcher (get_of []) sched_in_order) 0 7 modem_cached = (r, m, q)"
    by (cases "ParseStats library_empty (fetcher (get_of []) sched_in_order) 0 7 modem_cached")
  from ParseStats_cached [OF h1 h2, of "fetcher (get_of []) sched_last_first" 20 29]
  show ?thesis using h1 h2 by auto
qed

section \<open>Channel ordinals\<close>

lemma downstream_body_None: "downstream_body lib i d = None \<longleftrightarrow> \<not> ds_recognized d"
  by (simp add: downstream_body_def ds_recognized_def Let_def)

lemma downstream_body_Some:
  "downstream_body lib i d = Some c \<Longrightarrow>
     ModemChannel.Channel c = int i + 1 \<and> ChannelID c = dsChannel.ID d"
  by (auto simp: downstream_body_def ModemChannel_zero_def Let_def split: if_splits)

lemma upstream_body_None: "upstream_body lib i d = None \<longleftrightarrow> \<not> us_recognized d"
  by (simp add: upstream_body_def us_recognized_def Let_def)

lemma upstream_body_Some:
  "upstream_body lib i d = Some c \<Longrightarrow>
     ModemChannel.Channel c = int i + 1 \<and> ChannelID c = usChannel.ID d"
  by (auto simp: upstream_body_def ModemChannel_zero_def Let_def split: if_splits)

lemma downstream_loop_ordinals:
  "map (\<lambda>c. (Channel c, ChannelID c)) (downstream_loop lib i ds acc) =
     map (\<lambda>c. (Channel c, ChannelID c)) acc @
     map (\<lambda>(j, d). (int j + 1, dsChannel.ID d))
       (filter (\<lambda>(j, d). ds_recognized d) (List.enumerate i ds))"
proof (induction ds arbitrary: i acc)
  case Nil
  show ?case by simp
next
  case (Cons d ds)
  show ?case
  proof (cases "downstream_body lib i d")
    case None
    then have "\<not> ds_recognized d" by (simp add: downstream_body_None)
    with None show ?thesis
      by (simp add: Cons.IH)
  next
    case (Some c)
    have rec: "ds_recognized d"
      using Some downstream_body_None [of lib i d] by auto
    from Some rec downstream_body_Some [OF Some] show ?thesis
      by (simp add: Cons.IH)
  qed
qed

lemma upstream_loop_ordinals:
  "map (\<lambda>c. (Channel c, ChannelID c)) (upstream_loop lib i us acc) =
     map (\<lambda>c. (Channel c, ChannelID c)) acc @
     map (\<lambda>(j, d). (int j + 1, usChannel.ID d))
       (filter (\<lambda>(j, d). us_recognized d) (List.enumerate i us))"
proof (induction us arbitrary: i acc)
  case Nil
  show ?case by simp
next
  case (Cons d ds)
  show ?case
  proof (cases "upstream_body lib i d")
    case None
    then have "\<not> us_recognized d" by (simp add: upstream_body_None)
    with None show ?thesis
      by (simp add: Cons.IH)
  next
    case (Some c)
    have rec: "us_recognized d"
      using Some upstream_body_None [of lib i d] by auto
    from Some rec upstream_body_Some [OF Some] show ?thesis
      by (simp add: Cons.IH)
  qed
qed

text \<open>Evaluating the example document.\<close>

lemma f32_of_ratio_21_10: "f32_of_ratio 21 10 = Finite 8808038 (- 22)"
  by (simp add: f32_of_ratio_def div_rne_def Let_def)

lemma f32_round_88080380: "f32_round 88080380 (- 22) = Finite 11010048 (- 19)"
  unfolding f32_round_def Let_def by (simp add: rne_shift_def Let_def)

lemma go_int_21: "go_int u (f32_mul (Finite 8808038 (- 22)) f32_ten) = 21"
  by (simp add: f32_ten_def f32_round_88080380 go_int_def Let_def)

lemma Unmarshal_gap: "Unmarshal_results library_gap doc_gap = Inr results_gap"
  by (simp add: library_gap_def table_library_def)

lemma body_gap_0:
  "downstream_body lib 0 (dsChannel_zero\<lparr>dsChannel.ID := 5, dsChannel.ChannelType := ''docsis4''\<rparr>)
     = None"
  by (simp add: downstream_body_def dsChannel_zero_def Let_def)

lemma body_gap_1:
  "downstream_body lib (Suc 0)
     \<lparr>dsChannel.ID = 37, dsChannel.Frequency = 419000000,
      dsChannel.Power = f32_of_ratio 21 10, dsChannel.Modulation = ''qam_256'', SNR = 41,
      PreRS = 246832, PostRS = 11087, dsChannel.ChannelType = ''sc_qam'', RxMer = 0,
      dsChannel.LockStatus = True\<rparr>
     = Some (ModemChannel_zero\<lparr>ChannelID := 37, Channel := 2,
                ModemChannel.Frequency := 419000000, Snr := 410, ModemChannel.Power := 21,
                Prerserr := 257919, Postrserr := 11087, ModemChannel.Modulation := ''QAM256'',
                Scheme := ''SC-QAM'', Locked := True\<rparr>)"
  by (simp add: downstream_body_def f32_of_ratio_21_10 go_int_21 wrap64_def FindString_def
      is_digit_def Let_def)

lemma ParseStats_gap:
  "ParseStats library_gap fetch t0 t1 modem_gap =
     (Inr \<lparr>Configs = [], UpChannels = [],
           DownChannels =
             [ModemChannel_zero\<lparr>ChannelID := 37, Channel := 2,
                ModemChannel.Frequency := 419000000, Snr := 410, ModemChannel.Power := 21,
                Prerserr := 257919, Postrserr := 11087, ModemChannel.Modulation := ''QAM256'',
                Scheme := ''SC-QAM'', Locked := True\<rparr>],
           FetchTime = 100, ModemType = []\<rparr>,
      modem_gap, [])"
proof -
  have "Stats modem_gap \<noteq> None" by (simp add: modem_gap_def)
  then have "ParseStats library_gap fetch t0 t1 modem_gap =
      (normalise library_gap modem_gap, modem_gap, [])"
    by (rule ParseStats_cached_eq)
  moreover have "normalise library_gap modem_gap =
     Inr \<lparr>Configs = [], UpChannels = [],
           DownChannels =
             [ModemChannel_zero\<lparr>ChannelID := 37, Channel := 2,
                ModemChannel.Frequency := 419000000, Snr := 410, ModemChannel.Power := 21,
                Prerserr := 257919, Postrserr := 11087, ModemChannel.Modulation := ''QAM256'',
                Scheme := ''SC-QAM'', Locked := True\<rparr>],
           FetchTime = 100, ModemType = []\<rparr>"
    unfolding normalise_def
    by (simp add: modem_gap_def bytes_of_def Unmarshal_gap results_gap_def body_gap_0 body_gap_1)
  ultimately show ?thesis by simp
qed

lemma ParseStats_gap': "ParseStats library_gap fetch t0 t1 modem_gap = (Inr stats_gap, modem_gap, [])"
  by (simp add: ParseStats_gap stats_gap_def)

lemma Unmarshal_gap': "Unmarshal_results library_gap (bytes_of (Stats modem_gap)) = Inr results_gap"
  by (simp add: modem_gap_def bytes_of_def Unmarshal_gap)

text \<open>
  C3, as the code has it. An entry whose channel type is not known produces no channel and
  does not fail the document: a cached document that decodes is normalised without error.
  The channels emitted are those of the known entries, in the order of the document, and the
  ordinal of each is one more than the position of its entry in the raw list, entries
  stepped over included: an unknown entry leaves a gap in the ordinals. (\<open>List.enumerate 0\<close>
  pairs every entry with its position.)
\<close>

theorem ParseStats_ordinals:
  assumes "ParseStats lib fetch timeStart timeEnd sh5 = (r, sh5', reqs)"
    and "Unmarshal_results lib (bytes_of (Stats sh5')) = Inr raw"
  shows "(Stats sh5 \<noteq> None \<longrightarrow> (\<exists>stats. r = Inr stats))
    \<and> (\<forall>stats. r = Inr stats \<longrightarrow>
          map (\<lambda>c. (Channel c, ChannelID c)) (DownChannels stats) =
            map (\<lambda>(j, d). (int j + 1, dsChannel.ID d))
              (filter (\<lambda>(j, d). ds_recognized d) (List.enumerate 0 (Downstream_Channels raw)))
        \<and> map (\<lambda>c. (Channel c, ChannelID c)) (UpChannels stats) =
            map (\<lambda>(j, u). (int j + 1, usChannel.ID u))
              (filter (\<lambda>(j, u). us_recognized u) (List.enumerate 0 (Upstream_Channels raw))))"
proof (intro conjI impI allI)
  assume "Stats sh5 \<noteq> None"
  then have "r = normalise lib sh5" and "sh5' = sh5"
    using assms(1) ParseStats_cached_eq [of sh5 lib fetch timeStart timeEnd] by auto
  then show "\<exists>stats. r = Inr stats"
    using assms(2) by (simp add: normalise_def)
next
  fix stats assume "r = Inr stats"
  then have n: "normalise lib sh5' = Inr stats"
    using assms(1) ParseStats_success by blast
  then have d: "DownChannels stats = downstream_loop lib 0 (Downstream_Channels raw) []"
    and u: "UpChannels stats = upstream_loop lib 0 (Upstream_Channels raw) []"
    using assms(2) by (auto simp: normalise_def)
  show "map (\<lambda>c. (Channel c, ChannelID c)) (DownChannels stats) =
            map (\<lambda>(j, d). (int j + 1, dsChannel.ID d))
              (filter (\<lambda>(j, d). ds_recognized d) (List.enumerate 0 (Downstream_Channels raw)))"
    using downstream_loop_ordinals [of lib 0 "Downstream_Channels raw" "[]"] d by simp
  show "map (\<lambda>c. (Channel c, ChannelID c)) (UpChannels stats) =
            map (\<lambda>(j, u). (int j + 1, usChannel.ID u))
              (filter (\<lambda>(j, u). us_recognized u) (List.enumerate 0 (Upstream_Channels raw)))"
    using upstream_loop_ordinals [of lib 0 "Upstream_Channels raw" "[]"] u by simp
qed

text \<open>
  The claim as stated fails on the example document: one known entry preceded by no known
  entry, which the claim gives the ordinal 1, is emitted with ordinal 2.
\<close>

theorem ParseStats_ordinals_counterexample:
  "(case fst (ParseStats library_gap (fetcher (get_of []) sched_in_order) 0 0 modem_gap) of
      Inl e \<Rightarrow> []
    | Inr stats \<Rightarrow> map Channel (DownChannels stats)) = [2]
   \<and> 1 + int (length (filter ds_recognized (take 1 (Downstream_Channels results_gap)))) = 1"
  by (simp add: ParseStats_gap ModemChannel_zero_def results_gap_def ds_recognized_def
      dsChannel_zero_def)

theorem ParseStats_ordinals_witness:
  "ParseStats library_gap (fetcher (get_of []) sched_in_order) 0 0 modem_gap
     = (Inr stats_gap, modem_gap, [])
   \<and> Unmarshal_results library_gap (bytes_of (Stats modem_gap)) = Inr results_gap
   \<and> Stats modem_gap \<noteq> None
   \<and> map (\<lambda>c. (Channel c, ChannelID c)) (DownChannels stats_gap) = [(2, 37)]
   \<and> map (\<lambda>c. (Channel c, ChannelID c)) (UpChannels stats_gap) = []"
proof -
  note h1 = ParseStats_gap' [of "fetcher (get_of []) sched_in_order" 0 0]
  note h2 = Unmarshal_gap'
  have h3: "Stats modem_gap \<noteq> None" by (simp add: modem_gap_def)
  from ParseStats_ordinals [OF h1 h2]
  have "map (\<lambda>c. (Channel c, ChannelID c)) (DownChannels stats_gap) =
            map (\<lambda>(j, d). (int j + 1, dsChannel.ID d))
              (filter (\<lambda>(j, d). ds_recognized d) (List.enumerate 0 (Downstream_Channels results_gap)))"
    and "map (\<lambda>c. (Channel c, ChannelID c)) (UpChannels stats_gap) =
            map (\<lambda>(j, u). (int j + 1, usChannel.ID u))
              (filter (\<lambda>(j, u). us_recognized u) (List.enumerate 0 (Upstream_Channels results_gap)))"
    by blast+
  then have "map (\<lambda>c. (Channel c, ChannelID c)) (DownChannels stats_gap) = [(2, 37)]"
    and "map (\<lambda>c. (Channel c, ChannelID c)) (UpChannels stats_gap) = []"
    by (simp_all add: results_gap_def ds_recognized_def dsChannel_zero_def)
  with h1 h2 h3 show ?thesis by simp
qed

section \<open>SC-QAM channels\<close>

lemma wrap64_id: "- (2 ^ 63) \<le> x \<Longrightarrow> x < 2 ^ 63 \<Longrightarrow> wrap64 x = x"
  by (simp add: wrap64_def)

lemma downstream_loop_eq:
  "downstream_loop lib i ds acc =
     acc @ List.map_filter (\<lambda>(j, d). downstream_body lib j d) (List.enumerate i ds)"
  by (induction ds arbitrary: i acc) (simp_all add: List.map_filter_simps split: option.splits)

lemma in_set_map_filter:
  "y \<in> set (List.map_filter f xs) \<longleftrightarrow> (\<exists>x\<in>set xs. f x = Some y)"
  by (induction xs) (auto split: option.splits)

lemma downstream_loop_member:
  assumes "i < length ds" and "downstream_body lib i (ds ! i) = Some c"
  shows "c \<in> set (downstream_loop lib 0 ds [])"
proof -
  have "(i, ds ! i) \<in> set (List.enumerate 0 ds)"
    using assms(1) by (simp add: in_set_enumerate_eq)
  then show ?thesis
    using assms(2) by (force simp: downstream_loop_eq in_set_map_filter)
qed

lemma downstream_body_sc_qam:
  assumes "dsChannel.ChannelType d = ''sc_qam''"
  shows "\<exists>c. downstream_body lib i d = Some c
    \<and> Channel c = int i + 1
    \<and> ChannelID c = dsChannel.ID d
    \<and> ModemChannel.Frequency c = dsChannel.Frequency d
    \<and> ModemChannel.Power c = go_int (int_unrepresentable lib) (f32_mul (dsChannel.Power d) f32_ten)
    \<and> Snr c = wrap64 (SNR d * 10)
    \<and> Prerserr c = wrap64 (PreRS d + PostRS d)
    \<and> Postrserr c = PostRS d
    \<and> ModemChannel.Modulation c = ''QAM'' @ FindString (dsChannel.Modulation d)
    \<and> Scheme c = ''SC-QAM''
    \<and> Locked c = dsChannel.LockStatus d"
  using assms by (simp add: downstream_body_def ModemChannel_zero_def Let_def)

text \<open>
  C6. Whenever \<open>ParseStats\<close> succeeds, every downstream entry of the decoded document whose
  channel type is \<open>sc_qam\<close> has a channel in the snapshot with: power \<open>int(power * 10)\<close>, the
  product taken in float32; SNR the raw SNR times ten as Go's \<open>int\<close> computes it, which is the
  product itself when that fits 64 bits; pre-RS errors corrected plus uncorrected; post-RS
  errors the uncorrected; modulation \<open>QAM\<close> followed by the first run of digits of the raw
  modulation; scheme \<open>SC-QAM\<close>. The float32 nearest 2.1 gives power 21, and SNR 41 gives 410.
\<close>

theorem sc_qam_normalised:
  assumes "ParseStats lib fetch timeStart timeEnd sh5 = (Inr stats, sh5', reqs)"
  shows "\<exists>raw. Unmarshal_results lib (bytes_of (Stats sh5')) = Inr raw
    \<and> (\<forall>i<length (Downstream_Channels raw).
          dsChannel.ChannelType (Downstream_Channels raw ! i) = ''sc_qam'' \<longrightarrow>
          (\<exists>c\<in>set (DownChannels stats).
             Channel c = int i + 1
             \<and> ChannelID c = dsChannel.ID (Downstream_Channels raw ! i)
             \<and> ModemChannel.Power c =
                 go_int (int_unrepresentable lib)
                   (f32_mul (dsChannel.Power (Downstream_Channels raw ! i)) f32_ten)
             \<and> Snr c = wrap64 (SNR (Downstream_Channels raw ! i) * 10)
             \<and> (- (2 ^ 63) \<le> SNR (Downstream_Channels raw ! i) * 10
                  \<and> SNR (Downstream_Channels raw ! i) * 10 < 2 ^ 63
                  \<longrightarrow> Snr c = SNR (Downstream_Channels raw ! i) * 10)
             \<and> Prerserr c =
                 wrap64 (PreRS (Downstream_Channels raw ! i) + PostRS (Downstream_Channels raw ! i))
             \<and> Postrserr c = PostRS (Downstream_Channels raw ! i)
             \<and> ModemChannel.Modulation c =
                 ''QAM'' @ FindString (dsChannel.Modulation (Downstream_Channels raw ! i))
             \<and> Scheme c = ''SC-QAM''))
    \<and> go_int (int_unrepresentable lib) (f32_mul (f32_of_ratio 21 10) f32_ten) = 21
    \<and> wrap64 (41 * 10) = 410"
proof -
  have n: "normalise lib sh5' = Inr stats"
    using assms by (rule ParseStats_success)
  then obtain raw where raw: "Unmarshal_results lib (bytes_of (Stats sh5')) = Inr raw"
    by (auto simp: normalise_def split: sum.splits)
  with n have d: "DownChannels stats = downstream_loop lib 0 (Downstream_Channels raw) []"
    by (auto simp: normalise_def)
  have "\<exists>c\<in>set (DownChannels stats).
             Channel c = int i + 1
             \<and> ChannelID c = dsChannel.ID (Downstream_Channels raw ! i)
             \<and> ModemChannel.Power c =
                 go_int (int_unrepresentable lib)
                   (f32_mul (dsChannel.Power (Downstream_Channels raw ! i)) f32_ten)
             \<and> Snr c = wrap64 (SNR (Downstream_Channels raw ! i) * 10)
             \<and> (- (2 ^ 63) \<le> SNR (Downstream_Channels raw ! i) * 10
                  \<and> SNR (Downstream_Channels raw ! i) * 10 < 2 ^ 63
                  \<longrightarrow> Snr c = SNR (Downstream_Channels raw ! i) * 10)
             \<and> Prerserr c =
                 wrap64 (PreRS (Downstream_Channels raw ! i) + PostRS (Downstream_Channels raw ! i))
             \<and> Postrserr c = PostRS (Downstream_Channels raw ! i)
             \<and> ModemChannel.Modulation c =
                 ''QAM'' @ FindString (dsChannel.Modulation (Downstream_Channels raw ! i))
             \<and> Scheme c = ''SC-QAM''"
    if i: "i < length (Downstream_Channels raw)"
      and t: "dsChannel.ChannelType (Downstream_Channels raw ! i) = ''sc_qam''" for i
  proof -
    from downstream_body_sc_qam [OF t, of lib i] obtain c where
      c: "downstream_body lib i (Downstream_Channels raw ! i) = Some c"
        "Channel c = int i + 1"
        "ChannelID c = dsChannel.ID (Downstream_Channels raw ! i)"
        "ModemChannel.Power c = go_int (int_unrepresentable lib)
           (f32_mul (dsChannel.Power (Downstream_Channels raw ! i)) f32_ten)"
        "Snr c = wrap64 (SNR (Downstream_Channels raw ! i) * 10)"
        "Prerserr c =
           wrap64 (PreRS (Downstream_Channels raw ! i) + PostRS (Downstream_Channels raw ! i))"
        "Postrserr c = PostRS (Downstream_Channels raw ! i)"
        "ModemChannel.Modulation c =
           ''QAM'' @ FindString (dsChannel.Modulation (Downstream_Channels raw ! i))"
        "Scheme c = ''SC-QAM''"
      by blast
    have "c \<in> set (DownChannels stats)"
      using downstream_loop_member [OF i c(1)] d by simp
    moreover have "- (2 ^ 63) \<le> SNR (Downstream_Channels raw ! i) * 10
                  \<and> SNR (Downstream_Channels raw ! i) * 10 < 2 ^ 63
                  \<longrightarrow> Snr c = SNR (Downstream_Channels raw ! i) * 10"
      using c(5) by (simp add: wrap64_id)
    ultimately show ?thesis using c by blast
  qed
  moreover have "go_int (int_unrepresentable lib) (f32_mul (f32_of_ratio 21 10) f32_ten) = 21"
    by (simp add: f32_of_ratio_21_10 go_int_21)
  moreover have "wrap64 (41 * 10) = 410"
    by (simp add: wrap64_def)
  ultimately show ?thesis using raw by blast
qed

theorem sc_qam_normalised_witness:
  "ParseStats library_gap (fetcher (get_of []) sched_in_order) 0 0 modem_gap
     = (Inr stats_gap, modem_gap, [])
   \<and> dsChannel.ChannelType (Downstream_Channels results_gap ! 1) = ''sc_qam''
   \<and> dsChannel.Power (Downstream_Channels results_gap ! 1) = f32_of_ratio 21 10
   \<and> SNR (Downstream_Channels results_gap ! 1) = 41
   \<and> (\<exists>c\<in>set (DownChannels stats_gap).
        Channel c = 2 \<and> ChannelID c = 37 \<and> ModemChannel.Power c = 21 \<and> Snr c = 410
        \<and> Prerserr c = 257919 \<and> Postrserr c = 11087
        \<and> ModemChannel.Modulation c = ''QAM256'' \<and> Scheme c = ''SC-QAM'')"
proof -
  note h1 = ParseStats_gap' [of "fetcher (get_of []) sched_in_order" 0 0]
  have t: "dsChannel.ChannelType (Downstream_Channels results_gap ! 1) = ''sc_qam''"
    and p: "dsChannel.Power (Downstream_Channels results_gap ! 1) = f32_of_ratio 21 10"
    and s: "SNR (Downstream_Channels results_gap ! 1) = 41"
    and l: "1 < length (Downstream_Channels results_gap)"
    by (simp_all add: results_gap_def)
  from sc_qam_normalised [OF h1] obtain raw where
    r1: "Unmarshal_results library_gap (bytes_of (Stats modem_gap)) = Inr raw"
    and r2: "\<forall>i<length (Downstream_Channels raw).
          dsChannel.ChannelType (Downstream_Channels raw ! i) = ''sc_qam'' \<longrightarrow>
          (\<exists>c\<in>set (DownChannels stats_gap).
             Channel c = int i + 1
             \<and> ChannelID c = dsChannel.ID (Downstream_Channels raw ! i)
             \<and> ModemChannel.Power c =
                 go_int (int_unrepresentable library_gap)
                   (f32_mul (dsChannel.Power (Downstream_Channels raw ! i)) f32_ten)
             \<and> Snr c = wrap64 (SNR (Downstream_Channels raw ! i) * 10)
             \<and> (- (2 ^ 63) \<le> SNR (Downstream_Channels raw ! i) * 10
                  \<and> SNR (Downstream_Channels raw ! i) * 10 < 2 ^ 63
                  \<longrightarrow> Snr c = SNR (Downstream_Channels raw ! i) * 10)
             \<and> Prerserr c =
                 wrap64 (PreRS (Downstream_Channels raw ! i) + PostRS (Downstream_Channels raw ! i))
             \<and> Postrserr c = PostRS (Downstream_Channels raw ! i)
             \<and> ModemChannel.Modulation c =
                 ''QAM'' @ FindString (dsChannel.Modulation (Downstream_Channels raw ! i))
             \<and> Scheme c = ''SC-QAM'')"
    by blast
  have raw: "raw = results_gap"
    using r1 Unmarshal_gap' by simp
  from r2 [unfolded raw, rule_format, OF l t] obtain c where
    c: "c \<in> set (DownChannels stats_gap)"
      "Channel c = int 1 + 1"
      "ChannelID c = dsChannel.ID (Downstream_Channels results_gap ! 1)"
      "ModemChannel.Power c =
         go_int (int_unrepresentable library_gap)
           (f32_mul (dsChannel.Power (Downstream_Channels results_gap ! 1)) f32_ten)"
      "Snr c = wrap64 (SNR (Downstream_Channels results_gap ! 1) * 10)"
      "Prerserr c =
         wrap64 (PreRS (Downstream_Channels results_gap ! 1)
           + PostRS (Downstream_Channels results_gap ! 1))"
      "Postrserr c = PostRS (Downstream_Channels results_gap ! 1)"
      "ModemChannel.Modulation c =
         ''QAM'' @ FindString (dsChannel.Modulation (Downstream_Channels results_gap ! 1))"
      "Scheme c = ''SC-QAM''"
    by blast
  have "Channel c = 2" "ChannelID c = 37" "ModemChannel.Power c = 21" "Snr c = 410"
    "Prerserr c = 257919" "Postrserr c = 11087" "ModemChannel.Modulation c = ''QAM256''"
    using c(2-8)
    by (simp_all add: results_gap_def f32_of_ratio_21_10 go_int_21 wrap64_def FindString_def
        is_digit_def)
  with c(1) c(9) have "\<exists>c\<in>set (DownChannels stats_gap).
        Channel c = 2 \<and> ChannelID c = 37 \<and> ModemChannel.Power c = 21 \<and> Snr c = 410
        \<and> Prerserr c = 257919 \<and> Postrserr c = 11087
        \<and> ModemChannel.Modulation c = ''QAM256'' \<and> Scheme c = ''SC-QAM''"
    by blast
  with h1 t p s show ?thesis by simp
qed

section \<open>The fetcher returns every result once\<close>

text \<open>The invariant holds at the start and every step keeps it.\<close>

lemma Index_result_of [simp]: "Index (result_of i out) = i"
  by (simp add: result_of_def split: option.splits)

lemma fetch_inv_init: "fetch_inv get urls K (fetch_init urls)"
  by (simp add: fetch_inv_def fetch_init_def holds_slot_def completed_def)

lemma sum_holds_update:
  assumes "i < length ps"
  shows "sum_list (map holds_slot (ps[i := p])) + holds_slot (ps ! i) =
         sum_list (map holds_slot ps) + holds_slot p"
proof -
  have "holds_slot (ps ! i) \<le> sum_list (map holds_slot ps)"
    using assms by (intro member_le_sum_list) simp_all
  then show ?thesis
    using assms by (simp add: map_update sum_list_update)
qed

lemma completed_update_same:
  assumes "i < length ps" and "completed p = completed (ps ! i)"
  shows "{j. j < n \<and> completed (ps[i := p] ! j)} = {j. j < n \<and> completed (ps ! j)}"
  using assms by (auto simp: nth_list_update)

lemma completed_update_new:
  assumes "i < length ps" and "i < n" and "completed p"
  shows "{j. j < n \<and> completed (ps[i := p] ! j)} = insert i {j. j < n \<and> completed (ps ! j)}"
  using assms by (auto simp: nth_list_update)

lemma fetch_inv_Acquire:
  assumes "fetch_inv get urls K s" and "fetch_step get urls K (Acquire i) s = Some s'"
  shows "fetch_inv get urls K s'"
proof -
  from assms(2) have i: "i < length (places s)" and w: "places s ! i = Waiting"
    and k: "semaphoreChan s < K"
    and s': "s' = s\<lparr>places := (places s)[i := Holding], semaphoreChan := semaphoreChan s + 1\<rparr>"
    by (auto split: if_splits)
  have "sum_list (map holds_slot ((places s)[i := Holding])) = sum_list (map holds_slot (places s)) + 1"
    using sum_holds_update [OF i, of Holding] w by (simp add: holds_slot_def)
  moreover have "{j. j < length urls \<and> completed ((places s)[i := Holding] ! j)}
      = {j. j < length urls \<and> completed (places s ! j)}"
    using i w by (intro completed_update_same) (simp_all add: completed_def)
  ultimately show ?thesis
    using assms(1) k unfolding fetch_inv_def s' by simp
qed

lemma fetch_inv_Complete:
  assumes "fetch_inv get urls K s" and "fetch_step get urls K (Complete i) s = Some s'"
  shows "fetch_inv get urls K s'"
proof -
  from assms(2) have i: "i < length (places s)" and iu: "i < length urls"
    and h: "places s ! i = Holding"
    and s': "s' = s\<lparr>places := (places s)[i := Sent],
                    resultsChan := resultsChan s @ [result_of i (get i (urls ! i))]\<rparr>"
    by (auto split: if_splits)
  have "sum_list (map holds_slot ((places s)[i := Sent])) = sum_list (map holds_slot (places s))"
    using sum_holds_update [OF i, of Sent] h by (simp add: holds_slot_def)
  moreover have c: "{j. j < length urls \<and> completed ((places s)[i := Sent] ! j)}
      = insert i {j. j < length urls \<and> completed (places s ! j)}"
    using i iu by (intro completed_update_new) (simp_all add: completed_def)
  moreover have "i \<notin> {j. j < length urls \<and> completed (places s ! j)}"
    using h by (simp add: completed_def)
  ultimately show ?thesis
    using assms(1) unfolding fetch_inv_def s' by auto
qed

lemma fetch_inv_Release:
  assumes "fetch_inv get urls K s" and "fetch_step get urls K (Release i) s = Some s'"
  shows "fetch_inv get urls K s'"
proof -
  from assms(2) have i: "i < length (places s)" and h: "places s ! i = Sent"
    and s': "s' = s\<lparr>places := (places s)[i := Done], semaphoreChan := semaphoreChan s - 1\<rparr>"
    by (auto split: if_splits)
  have "sum_list (map holds_slot ((places s)[i := Done])) + 1 = sum_list (map holds_slot (places s))"
    using sum_holds_update [OF i, of Done] h by (simp add: holds_slot_def)
  moreover have "{j. j < length urls \<and> completed ((places s)[i := Done] ! j)}
      = {j. j < length urls \<and> completed (places s ! j)}"
    using i h by (intro completed_update_same) (simp_all add: completed_def)
  ultimately show ?thesis
    using assms(1) unfolding fetch_inv_def s' by auto
qed

lemma fetch_inv_Receive:
  assumes "fetch_inv get urls K s" and "fetch_step get urls K Receive s = Some s'"
  shows "fetch_inv get urls K s'"
proof -
  from assms(2) obtain r queue where q: "resultsChan s = r # queue"
    and s': "s' = s\<lparr>resultsChan := queue, results := results s @ [r]\<rparr>"
    by (auto split: if_splits list.splits)
  show ?thesis
    using assms(1) unfolding fetch_inv_def s' q by simp
qed

lemma fetch_inv_step:
  assumes "fetch_inv get urls K s" and "fetch_step get urls K a s = Some s'"
  shows "fetch_inv get urls K s'"
  using assms
  by (cases a) (blast intro: fetch_inv_Acquire fetch_inv_Complete fetch_inv_Release fetch_inv_Receive)+

lemma fetch_inv_run:
  assumes "fetch_inv get urls K s" and "fetch_run get urls K sched s = Some s'"
  shows "fetch_inv get urls K s'"
  using assms
proof (induction sched arbitrary: s)
  case Nil
  then show ?case by simp
next
  case (Cons a sched)
  then show ?case
    by (auto split: option.splits dest: fetch_inv_step)
qed





lemma fetch_inv_length:
  assumes "fetch_inv get urls K s"
  shows "length (results s) + length (resultsChan s) \<le> length urls"
proof -
  have d: "distinct (map Index (results s @ resultsChan s))"
    and e: "set (map Index (results s @ resultsChan s)) \<subseteq> {..<length urls}"
    using assms by (auto simp: fetch_inv_def)
  have "length (results s @ resultsChan s) = card (set (map Index (results s @ resultsChan s)))"
    using distinct_card [OF d] by simp
  also have "\<dots> \<le> card {..<length urls}"
    using e by (intro card_mono) simp_all
  finally show ?thesis by simp
qed




lemma completions_step:
  assumes "fetch_step get urls K a s = Some s'"
  shows "map Index (results s' @ resultsChan s') =
         map Index (results s @ resultsChan s) @ completions [a]"
  using assms by (cases a) (auto split: if_splits list.splits)

lemma completions_Cons: "completions (a # sched) = completions [a] @ completions sched"
  by (cases a) simp_all

lemma completions_run:
  "fetch_run get urls K sched s = Some s' \<Longrightarrow>
     map Index (results s' @ resultsChan s') =
     map Index (results s @ resultsChan s) @ completions sched"
proof (induction sched arbitrary: s)
  case Nil
  then show ?case by simp
next
  case (Cons a sched)
  from Cons.prems obtain s1 where s1: "fetch_step get urls K a s = Some s1"
    and r: "fetch_run get urls K sched s1 = Some s'"
    by (auto split: option.splits)
  show ?case
    using Cons.IH [OF r] completions_step [OF s1] completions_Cons [of a sched] by simp
qed

lemma returned_drained:
  assumes "fetch_inv get urls K s" and "returned urls s"
  shows "resultsChan s = []"
  using fetch_inv_length [OF assms(1)] assms(2) by (simp add: returned_def)

text \<open>What a goroutine puts into its result: the response when there is one, the zero
  response otherwise, and the error as the request returned it.\<close>

lemma Err_result_of: "Err (result_of i out) = snd out"
  by (simp add: result_of_def split: option.splits)




lemma run_last_first:
  "fetch_run get_mixed queries_default 3 sched_last_first (fetch_init queries_default) =
     Some \<lparr>places = [Done, Done, Done], semaphoreChan = 0, resultsChan = [],
           results =
             [\<lparr>Index = 2, Res = Response_zero, Err = Some (Errorf ''connection refused'')\<rparr>,
              \<lparr>Index = 1, Res = \<lparr>StatusCode = 200, Body = Inr ''{}''\<rparr>, Err = None\<rparr>,
              \<lparr>Index = 0, Res = Response_zero, Err = Some (Errorf ''timeout'')\<rparr>]\<rparr>"
  by (simp add: sched_last_first_def fetch_init_def queries_default_def get_mixed_def get_of_def
      result_of_def failed_def answered_def)


section \<open>A failed accumulation\<close>

lemma apiAddress_fst_Stats [simp]: "fst (apiAddress (sh5\<lparr>Stats := x\<rparr>)) = fst (apiAddress sh5)"
  by (simp add: apiAddress_def Let_def)

lemma apiAddress_idem:
  "apiAddress (snd (apiAddress sh5)) = (fst (apiAddress sh5), snd (apiAddress sh5))"
  by (simp add: apiAddress_def Let_def)

lemma ParseStats_fresh_eq:
  assumes "Stats sh5 = None"
    and "accumulate lib
           (fetch [fst (apiAddress sh5) @ ''/downstream'', fst (apiAddress sh5) @ ''/upstream'',
                   fst (apiAddress sh5) @ ''/serviceflows''] 3)
           ((snd (apiAddress (sh5\<lparr>Stats := Some ''{}''\<rparr>)))\<lparr>Modem.FetchTime := wrap64 (t1 - t0)\<rparr>)
         = (err, m)"
  shows "ParseStats lib fetch t0 t1 sh5 =
    (case err of
       Some e \<Rightarrow> (Inl e, m, [fst (apiAddress sh5) @ ''/downstream'',
                            fst (apiAddress sh5) @ ''/upstream'',
                            fst (apiAddress sh5) @ ''/serviceflows''])
     | None \<Rightarrow> (normalise lib m, m, [fst (apiAddress sh5) @ ''/downstream'',
                            fst (apiAddress sh5) @ ''/upstream'',
                            fst (apiAddress sh5) @ ''/serviceflows'']))"
  using assms
  by (cases "IPAddress sh5 = []"; cases err) (simp_all add: ParseStats_def apiAddress_def Let_def)

lemma accumulate_append:
  "accumulate lib (pre @ rest) m =
     (case accumulate lib pre m of
        (Some e, m') \<Rightarrow> (Some e, m')
      | (None, m') \<Rightarrow> accumulate lib rest m')"
  by (induction pre arbitrary: m)
    (auto simp: Let_def split: option.splits sum.splits prod.splits)





lemma queries_fresh:
  "[fst (apiAddress modem_fresh) @ ''/downstream'', fst (apiAddress modem_fresh) @ ''/upstream'',
    fst (apiAddress modem_fresh) @ ''/serviceflows''] = queries_default"
  by (simp add: apiAddress_def modem_fresh_def queries_default_def)

lemma m0_fresh:
  "(snd (apiAddress (modem_fresh\<lparr>Stats := Some ''{}''\<rparr>)))\<lparr>Modem.FetchTime := wrap64 (7 - 0)\<rparr>
     = modem_started"
  by (simp add: apiAddress_def modem_fresh_def modem_started_def wrap64_def Let_def)


lemma fetcher_mixed_last_first:
  "fetcher get_mixed sched_last_first queries_default 3 =
     [\<lparr>Index = 2, Res = Response_zero, Err = Some (Errorf ''connection refused'')\<rparr>,
      \<lparr>Index = 1, Res = \<lparr>StatusCode = 200, Body = Inr ''{}''\<rparr>, Err = None\<rparr>,
      \<lparr>Index = 0, Res = Response_zero, Err = Some (Errorf ''timeout'')\<rparr>]"
  by (simp add: fetcher_def BoundedParallelGet_def returned_def sched_last_first_def fetch_init_def
      queries_default_def get_mixed_def get_of_def result_of_def failed_def answered_def)







lemma merge_empty: "MergeMergePatches library_empty ''{}'' ''{}'' = (Some ''{}'', None)"
  by (simp add: library_empty_def table_library_def)




section \<open>The order in which results are inspected\<close>

lemma completions_from_init:
  assumes "fetch_run get urls K sched (fetch_init urls) = Some s" and "returned urls s"
  shows "resultsChan s = []" and "map Index (results s) = completions sched"
proof -
  have inv: "fetch_inv get urls K s"
    using fetch_inv_run [OF fetch_inv_init assms(1)] .
  show c: "resultsChan s = []"
    using returned_drained [OF inv assms(2)] .
  show "map Index (results s) = completions sched"
    using completions_run [OF assms(1)] c by (simp add: fetch_init_def)
qed

lemma results_content:
  assumes "fetch_run get urls K sched (fetch_init urls) = Some s" and "r \<in> set (results s)"
  shows "Err r = snd (get (Index r) (urls ! Index r))"
proof -
  have inv: "fetch_inv get urls K s"
    using fetch_inv_run [OF fetch_inv_init assms(1)] .
  then have "r = result_of (Index r) (get (Index r) (urls ! Index r))"
    using assms(2) by (auto simp: fetch_inv_def)
  then have "Err r = Err (result_of (Index r) (get (Index r) (urls ! Index r)))"
    by simp
  then show ?thesis by (simp add: Err_result_of)
qed

text \<open>
  C2, as the code has it. \<open>ParseStats\<close> walks the slice \<open>BoundedParallelGet\<close> returns, and
  that slice is in the order in which the requests completed: the \<open>Index\<close> of the result at
  position \<open>p\<close> is the request that completed \<open>p\<close>-th. The error surfaced is the one of the
  first failing result in that order, which is the error its own request returned; the
  request index plays no part in the choice.
\<close>

theorem ParseStats_completion_order:
  assumes "Stats sh5 = None"
    and "qs = [fst (apiAddress sh5) @ ''/downstream'', fst (apiAddress sh5) @ ''/upstream'',
               fst (apiAddress sh5) @ ''/serviceflows'']"
    and "m0 = (snd (apiAddress (sh5\<lparr>Stats := Some ''{}''\<rparr>)))\<lparr>Modem.FetchTime :=
                 wrap64 (timeEnd - timeStart)\<rparr>"
    and "fetch_run get qs 3 sched (fetch_init qs) = Some s"
    and "returned qs s"
    and "results s = pre @ r # post"
    and "accumulate lib pre m0 = (None, m)"
    and "Err r = Some e"
  shows "fetcher get sched qs 3 = results s
    \<and> map Index (results s) = completions sched
    \<and> Index r = completions sched ! length pre
    \<and> snd (get (Index r) (qs ! Index r)) = Some e
    \<and> ParseStats lib (fetcher get sched) timeStart timeEnd sh5 = (Inl e, m, qs)"
proof -
  have f: "fetcher get sched qs 3 = results s"
    using assms(4,5) by (simp add: fetcher_def BoundedParallelGet_def)
  have c: "map Index (results s) = completions sched"
    using completions_from_init(2) [OF assms(4,5)] .
  have "map Index (results s) ! length pre = Index r"
    unfolding assms(6) by (simp add: nth_append)
  then have i: "Index r = completions sched ! length pre"
    using c by simp
  have "r \<in> set (results s)"
    unfolding assms(6) by simp
  then have g: "snd (get (Index r) (qs ! Index r)) = Some e"
    using results_content [OF assms(4)] assms(8) by simp
  have "accumulate lib (fetcher get sched qs 3) m0 = (Some e, m)"
    using assms(7,8) unfolding f assms(6) by (simp add: accumulate_append)
  then have "ParseStats lib (fetcher get sched) timeStart timeEnd sh5 =
      (case Some e of Some e \<Rightarrow> (Inl e, m, qs) | None \<Rightarrow> (normalise lib m, m, qs))"
    unfolding assms(2,3)
    by (intro ParseStats_fresh_eq [where fetch = "fetcher get sched", OF assms(1)])
  then have p: "ParseStats lib (fetcher get sched) timeStart timeEnd sh5 = (Inl e, m, qs)"
    by simp
  from f c i g p show ?thesis by blast
qed

text \<open>
  The results are not inspected in request order. Requests 0 and 2 both fail, request 2
  completes first: the slice begins with the result of request 2, and \<open>ParseStats\<close> surfaces
  \<open>connection refused\<close>, the error of request 2, not \<open>timeout\<close>, the error of request 0.
\<close>

lemma run_last_first_3:
  "fetch_run get_mixed queries_default 3 sched_last_first (fetch_init queries_default) =
     Some \<lparr>places = [Done, Done, Done], semaphoreChan = 0, resultsChan = [],
           results =
             [] @ \<lparr>Index = 2, Res = Response_zero, Err = Some (Errorf ''connection refused'')\<rparr> #
             [\<lparr>Index = 1, Res = \<lparr>StatusCode = 200, Body = Inr ''{}''\<rparr>, Err = None\<rparr>,
              \<lparr>Index = 0, Res = Response_zero, Err = Some (Errorf ''timeout'')\<rparr>]\<rparr>"
  by (simp add: sched_last_first_def fetch_init_def queries_default_def get_mixed_def get_of_def
      result_of_def failed_def answered_def)

lemma ParseStats_mixed_last_first:
  "ParseStats library_empty (fetcher get_mixed sched_last_first) 0 7 modem_fresh =
     (Inl (Errorf ''connection refused''), modem_started, queries_default)"
proof -
  have s: "Stats modem_fresh = None" by (simp add: modem_fresh_def)
  have "accumulate library_empty
           (fetcher get_mixed sched_last_first
              [fst (apiAddress modem_fresh) @ ''/downstream'',
               fst (apiAddress modem_fresh) @ ''/upstream'',
               fst (apiAddress modem_fresh) @ ''/serviceflows''] 3)
           ((snd (apiAddress (modem_fresh\<lparr>Stats := Some ''{}''\<rparr>)))\<lparr>Modem.FetchTime := wrap64 (7 - 0)\<rparr>)
         = (Some (Errorf ''connection refused''), modem_started)"
    unfolding queries_fresh m0_fresh by (simp add: fetcher_mixed_last_first)
  from ParseStats_fresh_eq [where fetch = "fetcher get_mixed sched_last_first", OF s this]
  show ?thesis
    by (simp add: queries_fresh)
qed

theorem ParseStats_completion_order_counterexample:
  "BoundedParallelGet get_mixed sched_last_first
     [''https://192.168.100.1/rest/v1/cablemodem/downstream'',
      ''https://192.168.100.1/rest/v1/cablemodem/upstream'',
      ''https://192.168.100.1/rest/v1/cablemodem/serviceflows''] 3 =
     Some [\<lparr>Index = 2, Res = Response_zero, Err = Some (Errorf ''connection refused'')\<rparr>,
           \<lparr>Index = 1, Res = \<lparr>StatusCode = 200, Body = Inr ''{}''\<rparr>, Err = None\<rparr>,
           \<lparr>Index = 0, Res = Response_zero, Err = Some (Errorf ''timeout'')\<rparr>]
   \<and> fst (ParseStats library_empty (fetcher get_mixed sched_last_first) 0 7 modem_fresh) =
       Inl (Errorf ''connection refused'')
   \<and> snd (get_mixed 0 ''https://192.168.100.1/rest/v1/cablemodem/downstream'') =
       Some (Errorf ''timeout'')"
  using run_last_first_3 ParseStats_mixed_last_first
  by (simp add: BoundedParallelGet_def returned_def queries_default_def get_mixed_def get_of_def
      failed_def)

theorem ParseStats_completion_order_witness:
  "Stats modem_fresh = None
   \<and> fetcher get_mixed sched_last_first queries_default 3 =
       [\<lparr>Index = 2, Res = Response_zero, Err = Some (Errorf ''connection refused'')\<rparr>,
        \<lparr>Index = 1, Res = \<lparr>StatusCode = 200, Body = Inr ''{}''\<rparr>, Err = None\<rparr>,
        \<lparr>Index = 0, Res = Response_zero, Err = Some (Errorf ''timeout'')\<rparr>]
   \<and> completions sched_last_first = [2, 1, 0]
   \<and> snd (get_mixed 2 (queries_default ! 2)) = Some (Errorf ''connection refused'')
   \<and> ParseStats library_empty (fetcher get_mixed sched_last_first) 0 7 modem_fresh =
       (Inl (Errorf ''connection refused''),
        \<lparr>IPAddress = ''192.168.100.1'', Stats = Some ''{}'', FetchTime = 7\<rparr>,
        [''https://192.168.100.1/rest/v1/cablemodem/downstream'',
         ''https://192.168.100.1/rest/v1/cablemodem/upstream'',
         ''https://192.168.100.1/rest/v1/cablemodem/serviceflows''])"
proof -
  have h1: "Stats modem_fresh = None" by (simp add: modem_fresh_def)
  have h2: "queries_default =
      [fst (apiAddress modem_fresh) @ ''/downstream'', fst (apiAddress modem_fresh) @ ''/upstream'',
       fst (apiAddress modem_fresh) @ ''/serviceflows'']"
    by (simp add: queries_fresh)
  have h3: "modem_started =
      (snd (apiAddress (modem_fresh\<lparr>Stats := Some ''{}''\<rparr>)))\<lparr>Modem.FetchTime := wrap64 (7 - 0)\<rparr>"
    by (rule m0_fresh [symmetric])
  have h5: "returned queries_default
     \<lparr>places = [Done, Done, Done], semaphoreChan = 0, resultsChan = [],
           results =
             [] @ \<lparr>Index = 2, Res = Response_zero, Err = Some (Errorf ''connection refused'')\<rparr> #
             [\<lparr>Index = 1, Res = \<lparr>StatusCode = 200, Body = Inr ''{}''\<rparr>, Err = None\<rparr>,
              \<lparr>Index = 0, Res = Response_zero, Err = Some (Errorf ''timeout'')\<rparr>]\<rparr>"
    by (simp add: returned_def queries_default_def)
  have h7: "accumulate library_empty [] modem_started = (None, modem_started)"
    by simp
  note t = ParseStats_completion_order [where lib = library_empty, OF h1 h2 h3 run_last_first_3 h5 _ h7]
  have "fetcher get_mixed sched_last_first queries_default 3 =
       [\<lparr>Index = 2, Res = Response_zero, Err = Some (Errorf ''connection refused'')\<rparr>,
        \<lparr>Index = 1, Res = \<lparr>StatusCode = 200, Body = Inr ''{}''\<rparr>, Err = None\<rparr>,
        \<lparr>Index = 0, Res = Response_zero, Err = Some (Errorf ''timeout'')\<rparr>]
    \<and> completions sched_last_first = [2, 1, 0]
    \<and> snd (get_mixed 2 (queries_default ! 2)) = Some (Errorf ''connection refused'')
    \<and> ParseStats library_empty (fetcher get_mixed sched_last_first) 0 7 modem_fresh =
       (Inl (Errorf ''connection refused''), modem_started, queries_default)"
    using t [where e = "Errorf ''connection refused''"]
    by (simp add: sched_last_first_def)
  with h1 show ?thesis
    by (simp add: modem_started_def queries_default_def)
qed

section \<open>Shipping the event log\<close>

text \<open>Decimal digits, the example entries, and the outcomes of \<open>PushLogs\<close> once the request
  is built.\<close>

lemma char_of_digits:
  "char_of (48 :: nat) = CHR ''0''" "char_of (49 :: nat) = CHR ''1''"
  "char_of (50 :: nat) = CHR ''2''" "char_of (51 :: nat) = CHR ''3''"
  "char_of (52 :: nat) = CHR ''4''" "char_of (53 :: nat) = CHR ''5''"
  "char_of (54 :: nat) = CHR ''6''" "char_of (55 :: nat) = CHR ''7''"
  "char_of (56 :: nat) = CHR ''8''" "char_of (57 :: nat) = CHR ''9''"
  by code_simp+

lemma Sprintf_d_100: "Sprintf_d 100000000000 = ''100000000000''"
  by (simp add: Sprintf_d_def char_of_digits)

lemma Sprintf_d_20: "Sprintf_d 20000000000 = ''20000000000''"
  by (simp add: Sprintf_d_def char_of_digits)

lemma Sprintf_d_now: "Sprintf_d (1700000000000000000 + int 2) = ''1700000000000000002''"
  by (simp add: Sprintf_d_def char_of_digits)

lemma Sprintf_d_500: "Sprintf_d 500 = ''500''"
  by (simp add: Sprintf_d_def char_of_digits)

lemma stamp_late: "stamp (world_of es out) i entry_late = [''100000000000'', ''No Ranging Response received'']"
  by (simp add: stamp_def world_of_def time_table_def entry_late_def Sprintf_d_100)

lemma stamp_early: "stamp (world_of es out) i entry_early = [''20000000000'', ''SYNC Timing Synchronization failure'']"
  by (simp add: stamp_def world_of_def time_table_def entry_early_def Sprintf_d_20)

lemma stamp_undated: "stamp (world_of es out) 2 entry_undated = [''1700000000000000002'', ''Cable Modem Reboot'']"
  using Sprintf_d_now
  by (simp add: stamp_def world_of_def time_table_def entry_undated_def)

lemma group_three:
  "group_loop (world_of es out) 0 [entry_early, entry_late, entry_undated] [] =
     [(''error'', [[''20000000000'', ''SYNC Timing Synchronization failure''],
                   [''100000000000'', ''No Ranging Response received'']]),
      (''notice'', [[''1700000000000000002'', ''Cable Modem Reboot'']])]"
proof -
  have "group_loop (world_of es out) 0 [entry_early, entry_late, entry_undated] [] =
      streams_append (EventLogEntry.Priority entry_undated) (stamp (world_of es out) 2 entry_undated)
        (streams_append (EventLogEntry.Priority entry_late) (stamp (world_of es out) 1 entry_late)
          (streams_append (EventLogEntry.Priority entry_early) (stamp (world_of es out) 0 entry_early) []))"
    by (simp add: numeral_2_eq_2)
  then show ?thesis
    unfolding stamp_late stamp_early stamp_undated
    by (simp add: entry_late_def entry_early_def entry_undated_def)
qed

lemma build_three:
  "build_request (world_of es out) exporter_new [entry_early, entry_late, entry_undated] =
     \<lparr>Streams =
        [\<lparr>Stream = [''job'' \<mapsto> ''modem-stats'', ''level'' \<mapsto> ''error''],
          Values = [[''100000000000'', ''No Ranging Response received''],
                    [''20000000000'', ''SYNC Timing Synchronization failure'']]\<rparr>,
         \<lparr>Stream = [''job'' \<mapsto> ''modem-stats'', ''level'' \<mapsto> ''notice''],
          Values = [[''1700000000000000002'', ''Cable Modem Reboot'']]\<rparr>]\<rparr>"
  unfolding build_request_def group_three
  by (simp add: build_stream_def exporter_new_def)

lemma filter_new_empty: "filter_new Map.empty es = es"
  by (simp add: filter_new_def seen_def)

lemma world_of_simps:
  "logProvider (world_of es out) = Inr es"
  "time_Parse (world_of es out) = time_table"
  "json_Marshal (world_of es out) req = Inr ''streams''"
  "client_Post (world_of es out) url body = out"
  by (simp_all add: world_of_def)

lemma PushLogs_answered:
  assumes "logProvider w = Inr entries"
    and "filter_new (seenLogs l) entries = new"
    and "new \<noteq> []"
    and "json_Marshal w (build_request w l new) = Inr body"
    and "client_Post w (endpoint l) body = (Some r, None)"
  shows "PushLogs w l =
    (if StatusCode r < 200 \<or> 300 \<le> StatusCode r
     then (Some (Errorf (''loki returned status '' @ Sprintf_d (StatusCode r))), l,
           [build_request w l new])
     else (None, l\<lparr>seenLogs := mark_seen new (seenLogs l)\<rparr>, [build_request w l new]))"
  using assms by (simp add: PushLogs_def Let_def)

lemma PushLogs_failed:
  assumes "logProvider w = Inr entries"
    and "filter_new (seenLogs l) entries = new"
    and "new \<noteq> []"
    and "json_Marshal w (build_request w l new) = Inr body"
    and "client_Post w (endpoint l) body = (resp, Some e)"
  shows "PushLogs w l = (Some (Wrap ''failed to push to loki: '' e), l, [build_request w l new])"
  using assms by (simp add: PushLogs_def Let_def)

lemma PushLogs_nil:
  assumes "logProvider w = Inr entries"
    and "filter_new (seenLogs l) entries = new"
    and "new \<noteq> []"
    and "json_Marshal w (build_request w l new) = Inr body"
    and "client_Post w (endpoint l) body = (None, None)"
  shows "PushLogs w l = (Some (Panic ''nil pointer dereference''), l, [build_request w l new])"
  using assms by (simp add: PushLogs_def Let_def)

lemma PushLogs_nothing_new:
  assumes "logProvider w = Inr entries" and "filter_new (seenLogs l) entries = []"
  shows "PushLogs w l = (None, l, [])"
  using assms by (simp add: PushLogs_def Let_def)

lemma PushLogs_three:
  "PushLogs (world_of [entry_early, entry_late, entry_undated] (answered 204 [])) exporter_new =
     (None,
      exporter_new\<lparr>seenLogs :=
        [''1970-01-01T00:00:20Z|error|SYNC Timing Synchronization failure'' \<mapsto> True,
         ''1970-01-01T00:01:40Z|error|No Ranging Response received'' \<mapsto> True,
         ''Time Not Established|notice|Cable Modem Reboot'' \<mapsto> True]\<rparr>,
      [\<lparr>Streams =
         [\<lparr>Stream = [''job'' \<mapsto> ''modem-stats'', ''level'' \<mapsto> ''error''],
           Values = [[''100000000000'', ''No Ranging Response received''],
                     [''20000000000'', ''SYNC Timing Synchronization failure'']]\<rparr>,
          \<lparr>Stream = [''job'' \<mapsto> ''modem-stats'', ''level'' \<mapsto> ''notice''],
           Values = [[''1700000000000000002'', ''Cable Modem Reboot'']]\<rparr>]\<rparr>])"
proof -
  have "PushLogs (world_of [entry_early, entry_late, entry_undated] (answered 204 [])) exporter_new =
     (None,
      exporter_new\<lparr>seenLogs := mark_seen [entry_early, entry_late, entry_undated] (seenLogs exporter_new)\<rparr>,
      [build_request (world_of [entry_early, entry_late, entry_undated] (answered 204 [])) exporter_new
         [entry_early, entry_late, entry_undated]])"
    using PushLogs_answered [where w = "world_of [entry_early, entry_late, entry_undated] (answered 204 [])"
        and l = exporter_new and r = "\<lparr>StatusCode = 204, Body = Inr []\<rparr>"
        and new = "[entry_early, entry_late, entry_undated]"
        and entries = "[entry_early, entry_late, entry_undated]" and body = "''streams''"]
    by (simp add: world_of_simps answered_def) (simp add: exporter_new_def filter_new_empty)
  then show ?thesis
    unfolding build_three
    by (simp add: logKey_def entry_late_def entry_early_def entry_undated_def exporter_new_def)
qed

subsection \<open>The seen set is written after a successful push\<close>

lemma seen_mark_seen:
  "seen (mark_seen es m) k \<longleftrightarrow> seen m k \<or> k \<in> logKey ` set es"
  by (induction es arbitrary: m) (auto simp: seen_def)

lemma mark_seen_other:
  "k \<notin> logKey ` set es \<Longrightarrow> mark_seen es m k = m k"
  by (induction es arbitrary: m) auto

lemma filter_new_Nil_iff:
  "filter_new m es = [] \<longleftrightarrow> (\<forall>entry\<in>set es. seen m (logKey entry))"
  by (simp add: filter_new_def filter_empty_conv)

lemma set_filter_new: "set (filter_new m es) \<subseteq> set es"
  by (auto simp: filter_new_def)

lemma filter_new_marked:
  "filter_new (mark_seen (filter_new m es) m) es = []"
  unfolding filter_new_Nil_iff
proof
  fix entry
  assume e: "entry \<in> set es"
  show "seen (mark_seen (filter_new m es) m) (logKey entry)"
  proof (cases "seen m (logKey entry)")
    case True
    then show ?thesis by (simp add: seen_mark_seen)
  next
    case False
    with e have "entry \<in> set (filter_new m es)" by (simp add: filter_new_def)
    then show ?thesis by (simp add: seen_mark_seen)
  qed
qed

lemma PushLogs_error_frame: "fst (PushLogs w l) \<noteq> None \<Longrightarrow> fst (snd (PushLogs w l)) = l"
  by (auto simp: PushLogs_def Let_def split: sum.splits option.splits prod.splits if_splits)

text \<open>
  C4. Let \<open>PushLogs\<close> have new entries, and a request that \<open>json.Marshal\<close> encodes. If
  \<open>client.Post\<close> returns an error, \<open>PushLogs\<close> returns it wrapped; if the sink answers with
  a status below 200 or from 300 on, it returns \<open>loki returned status\<close> with that status;
  in both cases the exporter is as before. If the sink answers with a status from 200 to
  299, \<open>PushLogs\<close> returns nil, and the keys seen afterwards are those seen before and
  those of the new entries; nothing else of the exporter changes. Whenever \<open>PushLogs\<close>
  returns an error the seen set is unchanged and the same entries are new on the next
  call; and the seen set changes only when the sink has answered with a status from 200
  to 299.
\<close>

theorem PushLogs_marks_after_success:
  assumes "logProvider w = Inr entries"
    and "filter_new (seenLogs l) entries = new"
    and "new \<noteq> []"
    and "json_Marshal w (build_request w l new) = Inr body"
    and "client_Post w (endpoint l) body = (resp, err)"
  shows "(\<forall>e. err = Some e \<longrightarrow>
            PushLogs w l = (Some (Wrap ''failed to push to loki: '' e), l, [build_request w l new]))
    \<and> (\<forall>r. err = None \<and> resp = Some r \<and> (StatusCode r < 200 \<or> 300 \<le> StatusCode r) \<longrightarrow>
            PushLogs w l =
              (Some (Errorf (''loki returned status '' @ Sprintf_d (StatusCode r))), l,
               [build_request w l new]))
    \<and> (\<forall>r. err = None \<and> resp = Some r \<and> 200 \<le> StatusCode r \<and> StatusCode r < 300 \<longrightarrow>
            fst (PushLogs w l) = None
            \<and> snd (snd (PushLogs w l)) = [build_request w l new]
            \<and> endpoint (fst (snd (PushLogs w l))) = endpoint l
            \<and> labels (fst (snd (PushLogs w l))) = labels l
            \<and> (\<forall>k. seen (seenLogs (fst (snd (PushLogs w l)))) k \<longleftrightarrow>
                     seen (seenLogs l) k \<or> k \<in> logKey ` set new)
            \<and> (\<forall>k. k \<notin> logKey ` set new \<longrightarrow>
                     seenLogs (fst (snd (PushLogs w l))) k = seenLogs l k))
    \<and> (fst (PushLogs w l) \<noteq> None \<longrightarrow>
            seenLogs (fst (snd (PushLogs w l))) = seenLogs l
            \<and> filter_new (seenLogs (fst (snd (PushLogs w l)))) entries = new)
    \<and> (seenLogs (fst (snd (PushLogs w l))) \<noteq> seenLogs l \<longrightarrow>
            (\<exists>r. client_Post w (endpoint l) body = (Some r, None)
                  \<and> 200 \<le> StatusCode r \<and> StatusCode r < 300))"
proof (intro conjI allI impI)
  fix e
  assume "err = Some e"
  with assms show
    "PushLogs w l = (Some (Wrap ''failed to push to loki: '' e), l, [build_request w l new])"
    by (simp add: PushLogs_failed)
next
  fix r
  assume "err = None \<and> resp = Some r \<and> (StatusCode r < 200 \<or> 300 \<le> StatusCode r)"
  with PushLogs_answered [OF assms(1-4), of r] assms(5) show
    "PushLogs w l =
       (Some (Errorf (''loki returned status '' @ Sprintf_d (StatusCode r))), l,
        [build_request w l new])"
    by auto
next
  fix r
  assume a: "err = None \<and> resp = Some r \<and> 200 \<le> StatusCode r \<and> StatusCode r < 300"
  with PushLogs_answered [OF assms(1-4), of r] assms(5)
  have p: "PushLogs w l =
      (None, l\<lparr>seenLogs := mark_seen new (seenLogs l)\<rparr>, [build_request w l new])"
    by auto
  show "fst (PushLogs w l) = None" by (simp add: p)
  show "snd (snd (PushLogs w l)) = [build_request w l new]" by (simp add: p)
  show "endpoint (fst (snd (PushLogs w l))) = endpoint l" by (simp add: p)
  show "labels (fst (snd (PushLogs w l))) = labels l" by (simp add: p)
  show "seen (seenLogs (fst (snd (PushLogs w l)))) k \<longleftrightarrow>
      seen (seenLogs l) k \<or> k \<in> logKey ` set new" for k
    by (simp add: p seen_mark_seen)
  show "seenLogs (fst (snd (PushLogs w l))) k = seenLogs l k" if "k \<notin> logKey ` set new" for k
    using that by (simp add: p mark_seen_other)
next
  assume "fst (PushLogs w l) \<noteq> None"
  then have "fst (snd (PushLogs w l)) = l" by (rule PushLogs_error_frame)
  then show "seenLogs (fst (snd (PushLogs w l))) = seenLogs l"
    and "filter_new (seenLogs (fst (snd (PushLogs w l)))) entries = new"
    using assms(2) by simp_all
next
  assume c: "seenLogs (fst (snd (PushLogs w l))) \<noteq> seenLogs l"
  show "\<exists>r. client_Post w (endpoint l) body = (Some r, None)
      \<and> 200 \<le> StatusCode r \<and> StatusCode r < 300"
  proof (cases err)
    case (Some e)
    with assms have "fst (snd (PushLogs w l)) = l" by (simp add: PushLogs_failed)
    with c show ?thesis by simp
  next
    case None
    show ?thesis
    proof (cases resp)
      case n: None
      with None assms have "fst (snd (PushLogs w l)) = l" by (simp add: PushLogs_nil)
      with c show ?thesis by simp
    next
      case (Some r)
      show ?thesis
      proof (cases "StatusCode r < 200 \<or> 300 \<le> StatusCode r")
        case True
        with PushLogs_answered [OF assms(1-4), of r] assms(5) None Some
        have "fst (snd (PushLogs w l)) = l" by simp
        with c show ?thesis by simp
      next
        case False
        with None Some assms(5) show ?thesis by auto
      qed
    qed
  qed
qed

lemma build_two:
  "build_request (world_of es out) exporter_seen [entry_early, entry_late] =
     \<lparr>Streams =
        [\<lparr>Stream = [''job'' \<mapsto> ''modem-stats'', ''level'' \<mapsto> ''error''],
          Values = [[''100000000000'', ''No Ranging Response received''],
                    [''20000000000'', ''SYNC Timing Synchronization failure'']]\<rparr>]\<rparr>"
  unfolding build_request_def
  by (simp add: stamp_early stamp_late build_stream_def exporter_seen_def exporter_new_def)
    (simp add: entry_early_def entry_late_def)

lemma filter_new_seen:
  "filter_new (seenLogs exporter_seen) [entry_early, entry_undated, entry_late] =
     [entry_early, entry_late]"
  by (simp add: filter_new_def seen_def exporter_seen_def logKey_def entry_early_def
      entry_undated_def entry_late_def)

text \<open>A refused connection, status 500 and status 204, on three entries of which the second
  has been shipped before.\<close>

theorem PushLogs_marks_after_success_witness:
  "PushLogs (world_of [entry_early, entry_undated, entry_late] (failed ''connection refused''))
     exporter_seen =
     (Some (Wrap ''failed to push to loki: '' (Errorf ''connection refused'')), exporter_seen,
      [\<lparr>Streams =
         [\<lparr>Stream = [''job'' \<mapsto> ''modem-stats'', ''level'' \<mapsto> ''error''],
           Values = [[''100000000000'', ''No Ranging Response received''],
                     [''20000000000'', ''SYNC Timing Synchronization failure'']]\<rparr>]\<rparr>])
   \<and> PushLogs (world_of [entry_early, entry_undated, entry_late] (answered 500 []))
       exporter_seen =
     (Some (Errorf ''loki returned status 500''), exporter_seen,
      [\<lparr>Streams =
         [\<lparr>Stream = [''job'' \<mapsto> ''modem-stats'', ''level'' \<mapsto> ''error''],
           Values = [[''100000000000'', ''No Ranging Response received''],
                     [''20000000000'', ''SYNC Timing Synchronization failure'']]\<rparr>]\<rparr>])
   \<and> filter_new
         (seenLogs (fst (snd (PushLogs
            (world_of [entry_early, entry_undated, entry_late] (answered 500 [])) exporter_seen))))
         [entry_early, entry_undated, entry_late] = [entry_early, entry_late]
   \<and> fst (PushLogs (world_of [entry_early, entry_undated, entry_late] (answered 204 []))
         exporter_seen) = None
   \<and> snd (snd (PushLogs (world_of [entry_early, entry_undated, entry_late] (answered 204 []))
         exporter_seen)) =
       [\<lparr>Streams =
          [\<lparr>Stream = [''job'' \<mapsto> ''modem-stats'', ''level'' \<mapsto> ''error''],
            Values = [[''100000000000'', ''No Ranging Response received''],
                      [''20000000000'', ''SYNC Timing Synchronization failure'']]\<rparr>]\<rparr>]
   \<and> seen (seenLogs (fst (snd (PushLogs
         (world_of [entry_early, entry_undated, entry_late] (answered 204 [])) exporter_seen))))
       ''1970-01-01T00:00:20Z|error|SYNC Timing Synchronization failure''
   \<and> seen (seenLogs (fst (snd (PushLogs
         (world_of [entry_early, entry_undated, entry_late] (answered 204 [])) exporter_seen))))
       ''1970-01-01T00:01:40Z|error|No Ranging Response received''
   \<and> seen (seenLogs (fst (snd (PushLogs
         (world_of [entry_early, entry_undated, entry_late] (answered 204 [])) exporter_seen))))
       ''Time Not Established|notice|Cable Modem Reboot''
   \<and> \<not> seen (seenLogs (fst (snd (PushLogs
         (world_of [entry_early, entry_undated, entry_late] (answered 204 [])) exporter_seen))))
       ''1970-01-01T00:00:20Z|error|No Ranging Response received''"
proof -
  have h1: "logProvider (world_of [entry_early, entry_undated, entry_late] out) =
      Inr [entry_early, entry_undated, entry_late]" for out
    by (simp add: world_of_simps)
  have h3: "[entry_early, entry_late] \<noteq> []"
    by simp
  have h4: "json_Marshal (world_of [entry_early, entry_undated, entry_late] out)
      (build_request (world_of [entry_early, entry_undated, entry_late] out) exporter_seen
         [entry_early, entry_late])
      = Inr ''streams''" for out
    by (simp add: world_of_simps)
  have h5: "client_Post (world_of [entry_early, entry_undated, entry_late] out)
      (endpoint exporter_seen) ''streams'' = (fst out, snd out)" for out
    by (simp add: world_of_simps)
  note t = PushLogs_marks_after_success [OF h1 filter_new_seen h3 h4 h5]
  have k: "logKey ` set [entry_early, entry_late] =
      {''1970-01-01T00:00:20Z|error|SYNC Timing Synchronization failure'',
       ''1970-01-01T00:01:40Z|error|No Ranging Response received''}"
    by (simp add: logKey_def entry_early_def entry_late_def)
  have s: "seen (seenLogs exporter_seen) x \<longleftrightarrow>
      x = ''Time Not Established|notice|Cable Modem Reboot''" for x
    by (simp add: exporter_seen_def seen_def)
  have a: "PushLogs (world_of [entry_early, entry_undated, entry_late] (failed ''connection refused''))
       exporter_seen =
     (Some (Wrap ''failed to push to loki: '' (Errorf ''connection refused'')), exporter_seen,
      [build_request (world_of [entry_early, entry_undated, entry_late] (failed ''connection refused''))
         exporter_seen [entry_early, entry_late]])"
    using t [of "failed ''connection refused''"] by (simp add: failed_def)
  have b: "PushLogs (world_of [entry_early, entry_undated, entry_late] (answered 500 []))
       exporter_seen =
     (Some (Errorf ''loki returned status 500''), exporter_seen,
      [build_request (world_of [entry_early, entry_undated, entry_late] (answered 500 []))
         exporter_seen [entry_early, entry_late]])"
    using t [of "answered 500 []"] by (simp add: answered_def Sprintf_d_500)
  have c: "filter_new
         (seenLogs (fst (snd (PushLogs
            (world_of [entry_early, entry_undated, entry_late] (answered 500 [])) exporter_seen))))
         [entry_early, entry_undated, entry_late] = [entry_early, entry_late]"
    using t [of "answered 500 []"] b by simp
  have d: "fst (PushLogs (world_of [entry_early, entry_undated, entry_late] (answered 204 []))
         exporter_seen) = None
    \<and> snd (snd (PushLogs (world_of [entry_early, entry_undated, entry_late] (answered 204 []))
         exporter_seen)) =
       [build_request (world_of [entry_early, entry_undated, entry_late] (answered 204 []))
          exporter_seen [entry_early, entry_late]]
    \<and> (\<forall>x. seen (seenLogs (fst (snd (PushLogs
           (world_of [entry_early, entry_undated, entry_late] (answered 204 [])) exporter_seen)))) x
         \<longleftrightarrow> x = ''Time Not Established|notice|Cable Modem Reboot''
              \<or> x \<in> logKey ` set [entry_early, entry_late])"
    using t [of "answered 204 []"] s by (simp add: answered_def)
  from a b c d show ?thesis
    unfolding k build_two by simp
qed

subsection \<open>Entries already seen are not pushed again\<close>

lemma streams_append_set:
  "set (concat (map snd (streams_append p v s))) = insert v (set (concat (map snd s)))"
  by (induction p v s rule: streams_append.induct) simp_all

lemma streams_append_length:
  "length (concat (map snd (streams_append p v s))) = Suc (length (concat (map snd s)))"
  by (induction p v s rule: streams_append.induct) simp_all

lemma group_loop_set:
  "set (concat (map snd (group_loop w i es s))) =
     set (map (\<lambda>(j, e). stamp w j e) (enumerate i es)) \<union> set (concat (map snd s))"
proof (induction es arbitrary: i s)
  case Nil
  show ?case by simp
next
  case (Cons e es)
  have "set (concat (map snd (group_loop w i (e # es) s))) =
      set (map (\<lambda>(j, e). stamp w j e) (enumerate (Suc i) es))
        \<union> insert (stamp w i e) (set (concat (map snd s)))"
    using Cons [of "Suc i" "streams_append (EventLogEntry.Priority e) (stamp w i e) s"]
    by (simp only: group_loop.simps streams_append_set Suc_eq_plus1)
  then show ?case by simp
qed

lemma group_loop_length:
  "length (concat (map snd (group_loop w i es s))) = length es + length (concat (map snd s))"
proof (induction es arbitrary: i s)
  case Nil
  show ?case by simp
next
  case (Cons e es)
  have "length (concat (map snd (group_loop w i (e # es) s))) =
      length es + Suc (length (concat (map snd s)))"
    using Cons [of "Suc i" "streams_append (EventLogEntry.Priority e) (stamp w i e) s"]
    by (simp only: group_loop.simps streams_append_length Suc_eq_plus1)
  then show ?case by simp
qed

lemma build_stream_set:
  "set (concat (map Values (map (build_stream l) g))) = set (concat (map snd g))"
  by (induction g) (simp_all add: build_stream_def split: prod.splits)

lemma build_stream_length:
  "length (concat (map Values (map (build_stream l) g))) = length (concat (map snd g))"
  by (induction g) (simp_all add: build_stream_def split: prod.splits)

lemma build_request_set:
  "set (concat (map Values (Streams (build_request w l new)))) =
     set (map (\<lambda>(j, e). stamp w j e) (enumerate 0 new))"
  by (simp only: build_request_def lokiPushRequest.simps build_stream_set group_loop_set) simp

lemma build_request_length:
  "length (concat (map Values (Streams (build_request w l new)))) = length new"
  by (simp only: build_request_def lokiPushRequest.simps build_stream_length group_loop_length) simp

lemma PushLogs_success:
  assumes "logProvider w = Inr entries" and "PushLogs w l = (None, l1, reqs)"
  shows "(filter_new (seenLogs l) entries = [] \<longrightarrow> reqs = [] \<and> l1 = l)
    \<and> (filter_new (seenLogs l) entries \<noteq> [] \<longrightarrow>
          reqs = [build_request w l (filter_new (seenLogs l) entries)]
          \<and> l1 = l\<lparr>seenLogs := mark_seen (filter_new (seenLogs l) entries) (seenLogs l)\<rparr>)"
  using assms
  by (auto simp: PushLogs_def Let_def split: sum.splits option.splits prod.splits if_splits)

text \<open>
  C5. If every entry the provider returns has its key in the seen set, \<open>PushLogs\<close> returns
  nil, hands no request to \<open>client.Post\<close> and leaves the exporter as it is. If a call
  returns nil, then all the entries are seen afterwards, and a second call on the same
  entries returns nil with no request and the exporter unchanged; the first call handed
  over one request, built from the entries that were new, when there were any, and none
  otherwise. A request holds one value for each new entry: the pairs of timestamp and
  message of the new entries, and as many values as there are new entries.
\<close>

theorem PushLogs_deduplicates:
  assumes "logProvider w1 = Inr entries" and "logProvider w2 = Inr entries"
  shows "((\<forall>entry\<in>set entries. seen (seenLogs l) (logKey entry)) \<longrightarrow>
            PushLogs w1 l = (None, l, []))
    \<and> (\<forall>l1 reqs. PushLogs w1 l = (None, l1, reqs) \<longrightarrow>
          PushLogs w2 l1 = (None, l1, [])
          \<and> (\<forall>entry\<in>set entries. seen (seenLogs l1) (logKey entry))
          \<and> (filter_new (seenLogs l) entries = [] \<longrightarrow> reqs = [] \<and> l1 = l)
          \<and> (filter_new (seenLogs l) entries \<noteq> [] \<longrightarrow>
                reqs = [build_request w1 l (filter_new (seenLogs l) entries)]
                \<and> l1 = l\<lparr>seenLogs := mark_seen (filter_new (seenLogs l) entries) (seenLogs l)\<rparr>))
    \<and> length (concat (map Values (Streams (build_request w1 l new)))) = length new
    \<and> set (concat (map Values (Streams (build_request w1 l new)))) =
        set (map (\<lambda>(j, e). stamp w1 j e) (enumerate 0 new))"
proof (intro conjI allI impI)
  assume "\<forall>entry\<in>set entries. seen (seenLogs l) (logKey entry)"
  then have "filter_new (seenLogs l) entries = []"
    by (simp add: filter_new_Nil_iff)
  with assms(1) show "PushLogs w1 l = (None, l, [])"
    by (rule PushLogs_nothing_new)
next
  fix l1 reqs
  assume p: "PushLogs w1 l = (None, l1, reqs)"
  note s = PushLogs_success [OF assms(1) p]
  have f: "filter_new (seenLogs l1) entries = []"
  proof (cases "filter_new (seenLogs l) entries = []")
    case True
    with s show ?thesis by simp
  next
    case False
    with s have "seenLogs l1 = mark_seen (filter_new (seenLogs l) entries) (seenLogs l)"
      by simp
    then show ?thesis by (simp add: filter_new_marked)
  qed
  from assms(2) f show "PushLogs w2 l1 = (None, l1, [])"
    by (rule PushLogs_nothing_new)
  from f show "\<forall>entry\<in>set entries. seen (seenLogs l1) (logKey entry)"
    by (simp add: filter_new_Nil_iff)
  from s show "reqs = []" and "l1 = l" if "filter_new (seenLogs l) entries = []"
    using that by simp_all
  from s show "reqs = [build_request w1 l (filter_new (seenLogs l) entries)]"
    and "l1 = l\<lparr>seenLogs := mark_seen (filter_new (seenLogs l) entries) (seenLogs l)\<rparr>"
    if "filter_new (seenLogs l) entries \<noteq> []"
    using that by simp_all
next
  show "length (concat (map Values (Streams (build_request w1 l new)))) = length new"
    by (rule build_request_length)
  show "set (concat (map Values (Streams (build_request w1 l new)))) =
      set (map (\<lambda>(j, e). stamp w1 j e) (enumerate 0 new))"
    by (rule build_request_set)
qed

text \<open>Two calls on the same three entries, the sink answering 204.\<close>

theorem PushLogs_deduplicates_witness:
  "PushLogs (world_of [entry_early, entry_late, entry_undated] (answered 204 [])) exporter_new =
     (None,
      exporter_new\<lparr>seenLogs :=
        [''1970-01-01T00:00:20Z|error|SYNC Timing Synchronization failure'' \<mapsto> True,
         ''1970-01-01T00:01:40Z|error|No Ranging Response received'' \<mapsto> True,
         ''Time Not Established|notice|Cable Modem Reboot'' \<mapsto> True]\<rparr>,
      [\<lparr>Streams =
         [\<lparr>Stream = [''job'' \<mapsto> ''modem-stats'', ''level'' \<mapsto> ''error''],
           Values = [[''100000000000'', ''No Ranging Response received''],
                     [''20000000000'', ''SYNC Timing Synchronization failure'']]\<rparr>,
          \<lparr>Stream = [''job'' \<mapsto> ''modem-stats'', ''level'' \<mapsto> ''notice''],
           Values = [[''1700000000000000002'', ''Cable Modem Reboot'']]\<rparr>]\<rparr>])
   \<and> PushLogs (world_of [entry_early, entry_late, entry_undated] (answered 204 []))
       (exporter_new\<lparr>seenLogs :=
          [''1970-01-01T00:00:20Z|error|SYNC Timing Synchronization failure'' \<mapsto> True,
           ''1970-01-01T00:01:40Z|error|No Ranging Response received'' \<mapsto> True,
           ''Time Not Established|notice|Cable Modem Reboot'' \<mapsto> True]\<rparr>) =
     (None,
      exporter_new\<lparr>seenLogs :=
        [''1970-01-01T00:00:20Z|error|SYNC Timing Synchronization failure'' \<mapsto> True,
         ''1970-01-01T00:01:40Z|error|No Ranging Response received'' \<mapsto> True,
         ''Time Not Established|notice|Cable Modem Reboot'' \<mapsto> True]\<rparr>,
      [])
   \<and> length (concat (map Values (Streams
        (build_request (world_of [entry_early, entry_late, entry_undated] (answered 204 []))
           exporter_new [entry_early, entry_late, entry_undated])))) = 3"
proof -
  have h: "logProvider (world_of [entry_early, entry_late, entry_undated] (answered 204 [])) =
      Inr [entry_early, entry_late, entry_undated]"
    by (simp add: world_of_simps)
  note t = PushLogs_deduplicates [OF h h, of exporter_new "[entry_early, entry_late, entry_undated]"]
  from t have "\<forall>l1 reqs.
      PushLogs (world_of [entry_early, entry_late, entry_undated] (answered 204 [])) exporter_new =
        (None, l1, reqs) \<longrightarrow>
      PushLogs (world_of [entry_early, entry_late, entry_undated] (answered 204 [])) l1 =
        (None, l1, [])"
    by blast
  with PushLogs_three have second:
    "PushLogs (world_of [entry_early, entry_late, entry_undated] (answered 204 []))
       (exporter_new\<lparr>seenLogs :=
          [''1970-01-01T00:00:20Z|error|SYNC Timing Synchronization failure'' \<mapsto> True,
           ''1970-01-01T00:01:40Z|error|No Ranging Response received'' \<mapsto> True,
           ''Time Not Established|notice|Cable Modem Reboot'' \<mapsto> True]\<rparr>) =
     (None,
      exporter_new\<lparr>seenLogs :=
        [''1970-01-01T00:00:20Z|error|SYNC Timing Synchronization failure'' \<mapsto> True,
         ''1970-01-01T00:01:40Z|error|No Ranging Response received'' \<mapsto> True,
         ''Time Not Established|notice|Cable Modem Reboot'' \<mapsto> True]\<rparr>,
      [])"
    by blast
  from t have "length (concat (map Values (Streams
        (build_request (world_of [entry_early, entry_late, entry_undated] (answered 204 []))
           exporter_new [entry_early, entry_late, entry_undated])))) =
      length [entry_early, entry_late, entry_undated]"
    by blast
  then have third: "length (concat (map Values (Streams
        (build_request (world_of [entry_early, entry_late, entry_undated] (answered 204 []))
           exporter_new [entry_early, entry_late, entry_undated])))) = 3"
    by simp
  from PushLogs_three second third show ?thesis
    by (intro conjI)
qed

subsection \<open>The order of the values of a stream\<close>

text \<open>
  C7. \<open>sort.Slice\<close> is given \<open>values[i][0] < values[j][0]\<close>, a comparison of the decimal
  strings, under the comment \<open>Sort values by timestamp (oldest first)\<close>. Two entries of
  priority \<open>error\<close>, of 20 s and of 100 s after the epoch, are stamped 20000000000 and
  100000000000; in the request the value of the later entry stands first, since
  \<open>"100000000000" < "20000000000"\<close> as strings. The entry whose time does not parse is
  stamped with the clock at its turn in the grouping loop.
\<close>

theorem PushLogs_values_order:
  "time_table ''1970-01-01T00:00:20Z'' = Some 20000000000
   \<and> time_table ''1970-01-01T00:01:40Z'' = Some 100000000000
   \<and> time_table ''Time Not Established'' = None
   \<and> (''100000000000'' :: string) < ''20000000000''
   \<and> PushLogs (world_of [entry_early, entry_late, entry_undated] (answered 204 [])) exporter_new =
       (None,
        exporter_new\<lparr>seenLogs :=
          [''1970-01-01T00:00:20Z|error|SYNC Timing Synchronization failure'' \<mapsto> True,
           ''1970-01-01T00:01:40Z|error|No Ranging Response received'' \<mapsto> True,
           ''Time Not Established|notice|Cable Modem Reboot'' \<mapsto> True]\<rparr>,
        [\<lparr>Streams =
           [\<lparr>Stream = [''job'' \<mapsto> ''modem-stats'', ''level'' \<mapsto> ''error''],
             Values = [[''100000000000'', ''No Ranging Response received''],
                       [''20000000000'', ''SYNC Timing Synchronization failure'']]\<rparr>,
            \<lparr>Stream = [''job'' \<mapsto> ''modem-stats'', ''level'' \<mapsto> ''notice''],
             Values = [[''1700000000000000002'', ''Cable Modem Reboot'']]\<rparr>]\<rparr>])"
  using PushLogs_three by (simp add: time_table_def)

section \<open>Status codes\<close>

lemma fetcher_unavailable:
  "fetcher get_unavailable sched_in_order queries_default 3 =
     [\<lparr>Index = 0, Res = \<lparr>StatusCode = 503, Body = Inr ''{}''\<rparr>, Err = None\<rparr>,
      \<lparr>Index = 1, Res = \<lparr>StatusCode = 200, Body = Inr ''{}''\<rparr>, Err = None\<rparr>,
      \<lparr>Index = 2, Res = \<lparr>StatusCode = 200, Body = Inr ''{}''\<rparr>, Err = None\<rparr>]"
  by (simp add: fetcher_def BoundedParallelGet_def returned_def sched_in_order_def fetch_init_def
      queries_default_def get_unavailable_def get_of_def result_of_def answered_def)

lemma normalise_started:
  "normalise library_empty modem_started =
     Inr \<lparr>Configs = [], UpChannels = [], DownChannels = [], FetchTime = 7, ModemType = []\<rparr>"
  by (simp add: normalise_def modem_started_def bytes_of_def library_empty_def table_library_def
      results_empty_def)

lemma ParseStats_unavailable:
  "ParseStats library_empty (fetcher get_unavailable sched_in_order) 0 7 modem_fresh =
     (Inr \<lparr>Configs = [], UpChannels = [], DownChannels = [], FetchTime = 7, ModemType = []\<rparr>,
      modem_started, queries_default)"
proof -
  have s: "Stats modem_fresh = None" by (simp add: modem_fresh_def)
  have "accumulate library_empty
           (fetcher get_unavailable sched_in_order
              [fst (apiAddress modem_fresh) @ ''/downstream'',
               fst (apiAddress modem_fresh) @ ''/upstream'',
               fst (apiAddress modem_fresh) @ ''/serviceflows''] 3)
           ((snd (apiAddress (modem_fresh\<lparr>Stats := Some ''{}''\<rparr>)))\<lparr>Modem.FetchTime := wrap64 (7 - 0)\<rparr>)
         = (None, modem_started)"
    unfolding queries_fresh m0_fresh
    by (simp add: fetcher_unavailable modem_started_def bytes_of_def merge_empty)
  from ParseStats_fresh_eq [where fetch = "fetcher get_unavailable sched_in_order", OF s this]
  show ?thesis
    by (simp add: queries_fresh normalise_started)
qed

lemma FetchEventLog_500:
  "FetchEventLog library_eventlog (\<lambda>url. answered 500 ''{}'') modem_fresh =
     (Inr [], \<lparr>IPAddress = ''192.168.100.1'', Stats = None, FetchTime = 0\<rparr>)"
  by (simp add: FetchEventLog_def apiAddress_def modem_fresh_def answered_def library_eventlog_def
      table_library_def Let_def)

lemma SimpleHTTPFetch_503:
  "SimpleHTTPFetch (\<lambda>url. answered 503 ''{}'') 0 7
     ''https://192.168.100.1/rest/v1/cablemodem/downstream'' =
     Inl (Errorf ''503 status code recieved'')"
  by (simp add: SimpleHTTPFetch_def answered_def Sprintf_d_def char_of_digits)

lemma stamp_early_0:
  "build_request (world_of es out) exporter_new [entry_early] =
     \<lparr>Streams =
        [\<lparr>Stream = [''job'' \<mapsto> ''modem-stats'', ''level'' \<mapsto> ''error''],
          Values = [[''20000000000'', ''SYNC Timing Synchronization failure'']]\<rparr>]\<rparr>"
  unfolding build_request_def
  by (simp add: stamp_early build_stream_def exporter_new_def) (simp add: entry_early_def)

lemma PushLogs_500:
  "PushLogs (world_of [entry_early] (answered 500 [])) exporter_new =
     (Some (Errorf ''loki returned status 500''), exporter_new,
      [\<lparr>Streams =
         [\<lparr>Stream = [''job'' \<mapsto> ''modem-stats'', ''level'' \<mapsto> ''error''],
           Values = [[''20000000000'', ''SYNC Timing Synchronization failure'']]\<rparr>]\<rparr>])"
  using PushLogs_answered [where w = "world_of [entry_early] (answered 500 [])" and l = exporter_new
      and r = "\<lparr>StatusCode = 500, Body = Inr []\<rparr>" and new = "[entry_early]"
      and entries = "[entry_early]" and body = "''streams''"]
  by (simp add: world_of_simps filter_new_empty answered_def stamp_early_0 Sprintf_d_500)
    (simp add: exporter_new_def filter_new_empty)

text \<open>
  C8. The first of the three requests of \<open>ParseStats\<close> is answered with status 503 and the
  body \<open>{}\<close>: \<open>ParseStats\<close> merges the body and returns a snapshot and no error. The
  request of \<open>FetchEventLog\<close> is answered with status 500 and the body \<open>{}\<close>:
  \<open>FetchEventLog\<close> returns no entries and no error. \<open>SimpleHTTPFetch\<close> on the answer with
  status 503 returns \<open>503 status code recieved\<close>, and \<open>PushLogs\<close>, when the sink answers
  with status 500, returns \<open>loki returned status 500\<close>.
\<close>

theorem status_not_checked:
  "get_unavailable 0 ''https://192.168.100.1/rest/v1/cablemodem/downstream'' =
     (Some \<lparr>StatusCode = 503, Body = Inr ''{}''\<rparr>, None)
   \<and> ParseStats library_empty (fetcher get_unavailable sched_in_order) 0 7 modem_fresh =
       (Inr \<lparr>Configs = [], UpChannels = [], DownChannels = [], FetchTime = 7, ModemType = []\<rparr>,
        \<lparr>IPAddress = ''192.168.100.1'', Stats = Some ''{}'', FetchTime = 7\<rparr>,
        [''https://192.168.100.1/rest/v1/cablemodem/downstream'',
         ''https://192.168.100.1/rest/v1/cablemodem/upstream'',
         ''https://192.168.100.1/rest/v1/cablemodem/serviceflows''])
   \<and> FetchEventLog library_eventlog (\<lambda>url. answered 500 ''{}'') modem_fresh =
       (Inr [], \<lparr>IPAddress = ''192.168.100.1'', Stats = None, FetchTime = 0\<rparr>)
   \<and> SimpleHTTPFetch (\<lambda>url. answered 503 ''{}'') 0 7
       ''https://192.168.100.1/rest/v1/cablemodem/downstream'' =
       Inl (Errorf ''503 status code recieved'')
   \<and> PushLogs (world_of [entry_early] (answered 500 [])) exporter_new =
       (Some (Errorf ''loki returned status 500''), exporter_new,
        [\<lparr>Streams =
           [\<lparr>Stream = [''job'' \<mapsto> ''modem-stats'', ''level'' \<mapsto> ''error''],
             Values = [[''20000000000'', ''SYNC Timing Synchronization failure'']]\<rparr>]\<rparr>])"
  using ParseStats_unavailable FetchEventLog_500 SimpleHTTPFetch_503 PushLogs_500
  by (simp add: get_unavailable_def get_of_def answered_def modem_started_def queries_default_def)

end
